theory Spec2Isabelle
  imports Complex_Main "HOL-Library.Sublist" "HOL-Library.AList"
begin

section \<open>Python values and exceptions\<close>

text \<open>
  The program is Python 2.  Values decoded from JSON (requests of the RPC layer, responses
  of the Unity REST API) are modelled by \<open>json\<close>: \<open>JNull\<close> is \<open>None\<close>, \<open>JStr\<close> a
  \<open>unicode\<close> string, \<open>JInt\<close> an \<open>int\<close>, \<open>JFloat\<close> a \<open>float\<close> (idealised as a
  rational), \<open>JList\<close> a \<open>list\<close> and \<open>JDict\<close> a \<open>dict\<close>, written as the list of its
  items in iteration order (the keys of one dict are distinct).
\<close>

datatype json =
    JNull
  | JBool bool
  | JInt int
  | JFloat rat
  | JStr string
  | JList "json list"
  | JDict "(string \<times> json) list"

text \<open>
  Exceptions are values.  \<open>PyException\<close> is the base class \<open>Exception\<close> raised with a
  message; \<open>ProtocolError\<close> is the plugin's own class; \<open>NotModelled\<close> marks an input on
  which a built-in is outside the fragment modelled here.
\<close>

datatype exn =
    PyException string
  | KeyError json
  | TypeError string
  | AttributeError string
  | ZeroDivisionError
  | IndexError
  | UnicodeEncodeError
  | ProtocolError string
  | NotModelled string

text \<open>Truth value of an object, as \<open>if branch\<close> tests it.\<close>

fun truthy :: "json \<Rightarrow> bool" where
  "truthy JNull = False"
| "truthy (JBool b) = b"
| "truthy (JInt n) = (n \<noteq> 0)"
| "truthy (JFloat r) = (r \<noteq> 0)"
| "truthy (JStr s) = (s \<noteq> [])"
| "truthy (JList xs) = (xs \<noteq> [])"
| "truthy (JDict kvs) = (kvs \<noteq> [])"

text \<open>The name of an object's type, as Python's messages print it.\<close>

fun type_name :: "json \<Rightarrow> string" where
  "type_name JNull = ''NoneType''"
| "type_name (JBool b) = ''bool''"
| "type_name (JInt n) = ''int''"
| "type_name (JFloat r) = ''float''"
| "type_name (JStr s) = ''unicode''"
| "type_name (JList xs) = ''list''"
| "type_name (JDict kvs) = ''dict''"

text \<open>A name between single quotes, as Python's messages print it.\<close>

definition quoted :: "string \<Rightarrow> string" where
  "quoted s = [CHR 0x27] @ s @ [CHR 0x27]"

text \<open>
  Iterating an object, as \<open>new_branches += x\<close> does: a list gives its elements, a dict its
  keys, a string its characters; a number, a boolean or \<open>None\<close> raises \<open>TypeError\<close>.
\<close>

fun py_iter :: "json \<Rightarrow> exn + json list" where
  "py_iter (JList xs) = Inr xs"
| "py_iter (JDict kvs) = Inr (map (\<lambda>kv. JStr (fst kv)) kvs)"
| "py_iter (JStr s) = Inr (map (\<lambda>c. JStr [c]) s)"
| "py_iter v = Inl (TypeError (quoted (type_name v) @ '' object is not iterable''))"

section \<open>UnitySession.follow_path\<close>

text \<open>
  One branch of the inner loop of \<open>follow_path\<close>: what the branch adds to \<open>new_branches\<close>.
  For \<open>'*'\<close> it is \<open>branch if branch else []\<close>, iterated; otherwise it is the single
  element \<open>branch.get(step, None) if isinstance(branch, dict) else None\<close>.
\<close>

fun dict_get :: "json \<Rightarrow> string \<Rightarrow> json" where
  "dict_get (JDict kvs) step = (case map_of kvs step of None \<Rightarrow> JNull | Some v \<Rightarrow> v)"
| "dict_get v step = JNull"

definition follow_branch :: "string \<Rightarrow> json \<Rightarrow> exn + json list" where
  "follow_branch step branch =
     (if step = ''*'' then py_iter (if truthy branch then branch else JList [])
      else Inr [dict_get branch step])"

text \<open>The inner loop \<open>for branch in tree\<close>: it stops at the first branch that raises.\<close>

fun follow_step :: "string \<Rightarrow> json list \<Rightarrow> json list \<Rightarrow> exn + json list" where
  "follow_step step [] new_branches = Inr new_branches"
| "follow_step step (branch # tree) new_branches =
     (case follow_branch step branch of
        Inl e \<Rightarrow> Inl e
      | Inr bs \<Rightarrow> follow_step step tree (new_branches @ bs))"

text \<open>The outer loop \<open>for step in path\<close>.\<close>

fun follow_steps :: "string list \<Rightarrow> json list \<Rightarrow> exn + json list" where
  "follow_steps [] tree = Inr tree"
| "follow_steps (step # path) tree =
     (case follow_step step tree [] of
        Inl e \<Rightarrow> Inl e
      | Inr new_branches \<Rightarrow> follow_steps path new_branches)"

definition follow_path :: "json \<Rightarrow> string list \<Rightarrow> exn + json list" where
  "follow_path dictionary path =
     follow_steps path (case dictionary of JList xs \<Rightarrow> xs | _ \<Rightarrow> [dictionary])"


text \<open>
  Auxiliary notions for stating what \<open>follow_path\<close> computes: the branches it starts from,
  the objects a \<open>'*'\<close> step can iterate, the error it raises on the others, and the walk
  written without the error case (a \<open>'*'\<close> step contributes the items of a branch, nothing
  for a branch that has none; another step contributes \<open>dict_get\<close>).
\<close>

definition branches_of :: "json \<Rightarrow> json list" where
  "branches_of dictionary = (case dictionary of JList xs \<Rightarrow> xs | _ \<Rightarrow> [dictionary])"

fun iterable :: "json \<Rightarrow> bool" where
  "iterable (JList xs) = True"
| "iterable (JDict kvs) = True"
| "iterable (JStr s) = True"
| "iterable v = False"

definition not_iterable_error :: "json \<Rightarrow> exn" where
  "not_iterable_error v =
     TypeError (quoted (type_name v) @ '' object is not iterable'')"

fun star_items :: "json \<Rightarrow> json list" where
  "star_items (JList xs) = xs"
| "star_items (JDict kvs) = map (\<lambda>kv. JStr (fst kv)) kvs"
| "star_items (JStr s) = map (\<lambda>c. JStr [c]) s"
| "star_items v = []"

definition branch_items :: "string \<Rightarrow> json \<Rightarrow> json list" where
  "branch_items step branch =
     (if step = ''*'' then star_items branch else [dict_get branch step])"

fun walk_items :: "string list \<Rightarrow> json list \<Rightarrow> json list" where
  "walk_items [] tree = tree"
| "walk_items (step # path) tree = walk_items path (concat (map (branch_items step) tree))"

text \<open>
  \<open>star_safe\<close>: the branch is falsy or can be iterated.  \<open>walk_safe\<close>: every branch that a
  \<open>'*'\<close> step of the path meets is \<open>star_safe\<close>.
\<close>

definition star_safe :: "json \<Rightarrow> bool" where
  "star_safe branch = (if truthy branch then iterable branch else True)"

fun walk_safe :: "string list \<Rightarrow> json list \<Rightarrow> bool" where
  "walk_safe [] tree = True"
| "walk_safe (step # path) tree =
     ((if step = ''*'' then list_all star_safe tree else True)
      \<and> walk_safe path (concat (map (branch_items step) tree)))"

section \<open>Strings and numerals\<close>

text \<open>\<open>s.split(sep)\<close> for a separator of one character.\<close>

fun split_on :: "char \<Rightarrow> string \<Rightarrow> string list" where
  "split_on sep [] = [[]]"
| "split_on sep (c # cs) =
     (if c = sep then [] # split_on sep cs
      else (case split_on sep cs of
              [] \<Rightarrow> [[c]]
            | field # fields \<Rightarrow> (c # field) # fields))"

text \<open>\<open>sep.join(strings)\<close>.\<close>

fun join :: "string \<Rightarrow> string list \<Rightarrow> string" where
  "join sep [] = []"
| "join sep [s] = s"
| "join sep (s # t # ss) = s @ sep @ join sep (t # ss)"

definition is_digit :: "char \<Rightarrow> bool" where
  "is_digit c = (c \<in> set ''0123456789'')"

definition digit_value :: "char \<Rightarrow> nat" where
  "digit_value c = of_char c - 48"

definition decimal_value :: "string \<Rightarrow> nat" where
  "decimal_value s = foldl (\<lambda>n c. 10 * n + digit_value c) 0 s"

definition digit_char :: "nat \<Rightarrow> char" where
  "digit_char d = ''0123456789'' ! d"

text \<open>The decimal numeral of a natural number, as \<open>'%d'\<close> prints it.\<close>

fun show_nat :: "nat \<Rightarrow> string" where
  "show_nat n = (if n < 10 then [digit_char n] else show_nat (n div 10) @ [digit_char (n mod 10)])"

definition show_int :: "int \<Rightarrow> string" where
  "show_int i = (if i < 0 then CHR ''-'' # show_nat (nat (- i)) else show_nat (nat i))"

text \<open>
  \<open>int(s)\<close>, modelled on the strings it is applied to in \<open>fill_in_row\<close>: a non-empty run of
  decimal digits.  (Python also accepts a sign and surrounding white space.)
\<close>

definition py_int :: "string \<Rightarrow> exn + int" where
  "py_int s =
     (if s \<noteq> [] \<and> list_all is_digit s then Inr (int (decimal_value s))
      else Inl (NotModelled ''int''))"

text \<open>
  \<open>float(s)\<close> followed by \<open>'%f'\<close>.  The float is represented by its value in millionths,
  which is exact on the fragment modelled: digits, optionally followed by a point and at
  most six digits, with at most fifteen digits in all (a double holds fifteen significant
  decimal digits, so \<open>'%f'\<close> prints such a value back with six decimals).  Other spellings
  that Python accepts (exponents, signs, white space, \<open>inf\<close>, \<open>nan\<close>) or rejects with
  \<open>ValueError\<close> are not modelled.
\<close>

definition py_float :: "string \<Rightarrow> exn + nat" where
  "py_float s =
     (let whole = takeWhile (\<lambda>c. c \<noteq> CHR ''.'') s;
          frac = drop 1 (dropWhile (\<lambda>c. c \<noteq> CHR ''.'') s)
      in if whole \<noteq> [] \<and> list_all is_digit whole \<and> list_all is_digit frac
            \<and> length frac \<le> 6 \<and> length whole + length frac \<le> 15
         then Inr (decimal_value whole * 1000000 + decimal_value frac * 10 ^ (6 - length frac))
         else Inl (NotModelled ''float''))"

definition format_f :: "nat \<Rightarrow> string" where
  "format_f micros =
     show_nat (micros div 1000000) @ ''.''
       @ replicate (6 - length (show_nat (micros mod 1000000))) CHR ''0''
       @ show_nat (micros mod 1000000)"

definition py_index :: "'a list \<Rightarrow> nat \<Rightarrow> exn + 'a" where
  "py_index xs i = (if i < length xs then Inr (xs ! i) else Inl IndexError)"

section \<open>UnitySession.fill_in_row\<close>

text \<open>
  \<open>re.compile(r'\d{1,5}:\d{2}:\d{2}.\d{3}').match(s)\<close>: the match is anchored at the start
  of \<open>s\<close> only.  A run of one to five digits must be followed by a colon, so the run is the
  longest run of digits at the start; \<open>.\<close> is any character but a newline.
\<close>

definition duration_match :: "string \<Rightarrow> bool" where
  "duration_match s =
     (let hours = takeWhile is_digit s; rest = dropWhile is_digit s
      in 1 \<le> length hours \<and> length hours \<le> 5 \<and> 10 \<le> length rest
         \<and> rest ! 0 = CHR '':'' \<and> is_digit (rest ! 1) \<and> is_digit (rest ! 2)
         \<and> rest ! 3 = CHR '':'' \<and> is_digit (rest ! 4) \<and> is_digit (rest ! 5)
         \<and> rest ! 6 \<noteq> CHR 0x0A
         \<and> is_digit (rest ! 7) \<and> is_digit (rest ! 8) \<and> is_digit (rest ! 9))"

text \<open>
  The body of the first branch of \<open>fill_in_row\<close>: the string built from \<open>branch[0]\<close>.
  \<open>/\<close> is Python 2's integer division.
\<close>

definition format_duration :: "string \<Rightarrow> exn + string" where
  "format_duration leaf =
     (let fields = split_on CHR '':'' leaf in
      case py_index fields 0 of Inl e \<Rightarrow> Inl e | Inr field0 \<Rightarrow>
      case py_int field0 of Inl e \<Rightarrow> Inl e | Inr h \<Rightarrow>
      case py_index fields 1 of Inl e \<Rightarrow> Inl e | Inr field1 \<Rightarrow>
      case py_int field1 of Inl e \<Rightarrow> Inl e | Inr minutes \<Rightarrow>
      case py_index fields 2 of Inl e \<Rightarrow> Inl e | Inr field2 \<Rightarrow>
      case py_float field2 of Inl e \<Rightarrow> Inl e | Inr seconds \<Rightarrow>
        (let years = h div 24 div 365;
             days = (h div 24) mod 365;
             hours = h mod 24;
             result0 = [];
             result1 = (if years \<noteq> 0 then result0 @ show_int years @ '' years'' else result0);
             result2 = (if days \<noteq> 0
                        then result1 @ (if result1 \<noteq> [] then '', '' else []) @ show_int days @ '' days''
                        else result1);
             result3 = (if hours \<noteq> 0
                        then result2 @ (if result2 \<noteq> [] then '', '' else []) @ show_int hours @ '' hours''
                        else result2);
             result4 = (if minutes \<noteq> 0
                        then result3 @ (if result3 \<noteq> [] then '', '' else []) @ show_int minutes @ '' minutes''
                        else result3);
             result5 = (if seconds \<noteq> 0
                        then result4 @ (if result4 \<noteq> [] then '', '' else []) @ format_f seconds @ '' seconds''
                        else result4)
         in Inr result5))"

text \<open>
  \<open>str(leaf)\<close>, modelled on \<open>None\<close>, booleans, integers and strings; a \<open>unicode\<close>
  string with a character outside ASCII raises.  The \<open>repr\<close> of a float, a list or a dict
  is not modelled.
\<close>

fun py_str :: "json \<Rightarrow> exn + string" where
  "py_str JNull = Inr ''None''"
| "py_str (JBool b) = Inr (if b then ''True'' else ''False'')"
| "py_str (JInt n) = Inr (show_int n)"
| "py_str (JStr s) =
     (if list_all (\<lambda>c. (of_char c :: nat) < 128) s then Inr s else Inl UnicodeEncodeError)"
| "py_str v = Inl (NotModelled ''str'')"

text \<open>
  A row is a dict from data field to value; \<open>parameters\<close> is the dict from parameter to
  data field, as the list of its items.
\<close>

type_synonym row = "(string \<times> json) list"

fun str_leaves :: "json list \<Rightarrow> exn + string list" where
  "str_leaves [] = Inr []"
| "str_leaves (leaf # branch) =
     (case py_str leaf of
        Inl e \<Rightarrow> Inl e
      | Inr s \<Rightarrow> (case str_leaves branch of Inl e \<Rightarrow> Inl e | Inr ss \<Rightarrow> Inr (s # ss)))"

definition row_value :: "json list \<Rightarrow> exn + json" where
  "row_value branch =
     (case branch of
        [leaf] \<Rightarrow>
          (case leaf of
             JStr s \<Rightarrow>
               if duration_match s
               then (case format_duration s of Inl e \<Rightarrow> Inl e | Inr result \<Rightarrow> Inr (JStr result))
               else Inr leaf
           | _ \<Rightarrow> Inr leaf)
      | _ \<Rightarrow>
          (case str_leaves branch of
             Inl e \<Rightarrow> Inl e
           | Inr ss \<Rightarrow> Inr (JStr (join [CHR 0x0A] ss))))"

fun fill_in_row_loop :: "(string \<times> string) list \<Rightarrow> json \<Rightarrow> row \<Rightarrow> exn + row" where
  "fill_in_row_loop [] tree row = Inr row"
| "fill_in_row_loop ((parameter, datafield) # parameters) tree row =
     (case follow_path tree (split_on CHR ''.'' parameter) of
        Inl e \<Rightarrow> Inl e
      | Inr branch \<Rightarrow>
          (case row_value branch of
             Inl e \<Rightarrow> Inl e
           | Inr v \<Rightarrow> fill_in_row_loop parameters tree (AList.update datafield v row)))"

definition fill_in_row :: "(string \<times> string) list \<Rightarrow> json \<Rightarrow> exn + row" where
  "fill_in_row parameters tree = fill_in_row_loop parameters tree []"

text \<open>
  The rendering that the reformatting is meant to produce, for stating what
  \<open>format_duration\<close> computes: the components of the duration in order, those equal to
  zero left out, joined by a comma and a space.  \<open>h\<close> is the first field (hours),
  \<open>micros\<close> the seconds in millionths.
\<close>

definition duration_components :: "int \<Rightarrow> int \<Rightarrow> nat \<Rightarrow> (bool \<times> string) list" where
  "duration_components h minutes micros =
     [(h div 24 div 365 \<noteq> 0, show_int (h div 24 div 365) @ '' years''),
      ((h div 24) mod 365 \<noteq> 0, show_int ((h div 24) mod 365) @ '' days''),
      (h mod 24 \<noteq> 0, show_int (h mod 24) @ '' hours''),
      (minutes \<noteq> 0, show_int minutes @ '' minutes''),
      (micros \<noteq> 0, format_f micros @ '' seconds'')]"

definition render_duration :: "int \<Rightarrow> int \<Rightarrow> nat \<Rightarrow> string" where
  "render_duration h minutes micros =
     join '', '' (map snd (filter fst (duration_components h minutes micros)))"

text \<open>
  A leaf of the shape hours, minutes, seconds and milliseconds that the pattern is written
  for, with nothing after the milliseconds.
\<close>

definition duration_leaf ::
  "string \<Rightarrow> char \<Rightarrow> char \<Rightarrow> char \<Rightarrow> char \<Rightarrow> char \<Rightarrow> char \<Rightarrow> char \<Rightarrow> string" where
  "duration_leaf hs m1 m2 s1 s2 f1 f2 f3 =
     hs @ [CHR '':'', m1, m2, CHR '':'', s1, s2, CHR ''.'', f1, f2, f3]"

section \<open>protocol_plugin: sessions and the plugin\<close>

text \<open>
  \<open>ProtocolSession\<close> holds two dicts from reference to handle.  A plugin is the object
  given to \<open>ProtocolService\<close>; both plugins of the repository define the two attributes
  and the four methods below.  The handles are what the plugin's loaders return.
\<close>

record ('i, 'c) session =
  inputs :: "string \<rightharpoonup> 'i"
  configs :: "string \<rightharpoonup> 'c"

definition ProtocolSession :: "('i, 'c) session" where
  "ProtocolSession = \<lparr>inputs = Map.empty, configs = Map.empty\<rparr>"

record ('i, 'c) plugin =
  plugin_protocol :: string
  plugin_version :: string
  plugin_load_inputs :: "json \<Rightarrow> exn + 'i"
  plugin_load_config :: "json \<Rightarrow> exn + 'c"
  plugin_show_queries :: "json \<Rightarrow> exn + json"
  plugin_run_queries :: "json \<Rightarrow> 'i \<Rightarrow> 'c \<Rightarrow> exn + json"

text \<open>
  \<open>d[key]\<close> on a dict of the session, where \<open>key\<close> is a decoded value: a list or a dict
  cannot be hashed, any other key that is absent raises \<open>KeyError\<close>.  The keys of the
  session's dicts are strings.
\<close>

fun session_lookup :: "(string \<rightharpoonup> 'h) \<Rightarrow> json \<Rightarrow> exn + 'h" where
  "session_lookup d (JStr ref) = (case d ref of None \<Rightarrow> Inl (KeyError (JStr ref)) | Some h \<Rightarrow> Inr h)"
| "session_lookup d (JList xs) = Inl (TypeError (''unhashable type: '' @ quoted ''list''))"
| "session_lookup d (JDict kvs) = Inl (TypeError (''unhashable type: '' @ quoted ''dict''))"
| "session_lookup d key = Inl (KeyError key)"

text \<open>
  The methods of \<open>ProtocolService\<close>.  \<open>uuid\<close> is the string that \<open>str(uuid.uuid4())\<close>
  returns in this call.  Each method returns its result and the session as it leaves it.
\<close>

definition protocol :: "('i, 'c) plugin \<Rightarrow> ('i, 'c) session \<Rightarrow> (exn + json) \<times> ('i, 'c) session" where
  "protocol p session = (Inr (JStr (plugin_protocol p)), session)"

definition version :: "('i, 'c) plugin \<Rightarrow> ('i, 'c) session \<Rightarrow> (exn + json) \<times> ('i, 'c) session" where
  "version p session = (Inr (JStr (plugin_version p)), session)"

definition load_inputs ::
  "('i, 'c) plugin \<Rightarrow> string \<Rightarrow> ('i, 'c) session \<Rightarrow> json \<Rightarrow> (exn + json) \<times> ('i, 'c) session" where
  "load_inputs p uuid session raw =
     (case plugin_load_inputs p raw of
        Inl e \<Rightarrow> (Inl e, session)
      | Inr h \<Rightarrow> (Inr (JStr uuid), session\<lparr>inputs := (inputs session)(uuid \<mapsto> h)\<rparr>))"

definition load_config ::
  "('i, 'c) plugin \<Rightarrow> string \<Rightarrow> ('i, 'c) session \<Rightarrow> json \<Rightarrow> (exn + json) \<times> ('i, 'c) session" where
  "load_config p uuid session raw =
     (case plugin_load_config p raw of
        Inl e \<Rightarrow> (Inl e, session)
      | Inr h \<Rightarrow> (Inr (JStr uuid), session\<lparr>configs := (configs session)(uuid \<mapsto> h)\<rparr>))"

definition show_queries ::
  "('i, 'c) plugin \<Rightarrow> ('i, 'c) session \<Rightarrow> json \<Rightarrow> (exn + json) \<times> ('i, 'c) session" where
  "show_queries p session qry = (plugin_show_queries p qry, session)"

definition run_queries ::
  "('i, 'c) plugin \<Rightarrow> ('i, 'c) session \<Rightarrow> json \<Rightarrow> json \<Rightarrow> json \<Rightarrow> (exn + json) \<times> ('i, 'c) session" where
  "run_queries p session qry input_ref config_ref =
     (case session_lookup (inputs session) input_ref of
        Inl e \<Rightarrow> (Inl e, session)
      | Inr input_handle \<Rightarrow>
          (case session_lookup (configs session) config_ref of
             Inl e \<Rightarrow> (Inl e, session)
           | Inr config_handle \<Rightarrow> (plugin_run_queries p qry input_handle config_handle, session)))"

section \<open>ProtocolService.request\<close>

text \<open>
  \<open>callable(getattr(self, name, None))\<close>: the methods that the class \<open>ProtocolService\<close>
  defines.  Its base class \<open>RpcService\<close> belongs to the RPC library; it is taken to define
  none of the ten request names.
\<close>

definition service_methods :: "string list" where
  "service_methods =
     [''run'', ''session'', ''request'', ''protocol'', ''version'', ''load_inputs'',
      ''load_config'', ''show_queries'', ''run_queries'']"

definition has_method :: "string \<Rightarrow> bool" where
  "has_method name = (name \<in> set service_methods)"

definition not_implemented :: "string \<Rightarrow> exn" where
  "not_implemented name = PyException (''Request not implemented: '' @ name)"

text \<open>
  \<open>name in req\<close>: a substring test on a string, a key test on a dict, an element test on a
  list; the other values cannot be iterated.
\<close>

fun py_contains :: "string \<Rightarrow> json \<Rightarrow> exn + bool" where
  "py_contains name (JStr s) = Inr (sublist name s)"
| "py_contains name (JDict kvs) = Inr (name \<in> set (map fst kvs))"
| "py_contains name (JList xs) = Inr (JStr name \<in> set xs)"
| "py_contains name v =
     Inl (TypeError (''argument of type '' @ quoted (type_name v) @ '' is not iterable''))"

text \<open>\<open>obj[key]\<close> for a key that is a string.\<close>

fun py_getitem :: "json \<Rightarrow> string \<Rightarrow> exn + json" where
  "py_getitem (JDict kvs) key =
     (case map_of kvs key of None \<Rightarrow> Inl (KeyError (JStr key)) | Some v \<Rightarrow> Inr v)"
| "py_getitem (JStr s) key = Inl (TypeError ''string indices must be integers'')"
| "py_getitem (JList xs) key = Inl (TypeError ''list indices must be integers, not str'')"
| "py_getitem v key =
     Inl (TypeError (quoted (type_name v) @ '' object has no attribute '' @ quoted ''__getitem__''))"

text \<open>\<open>req[name][arg]\<close>, an argument of a request.\<close>

definition request_arg :: "json \<Rightarrow> string \<Rightarrow> string \<Rightarrow> exn + json" where
  "request_arg req name arg =
     (case py_getitem req name of Inl e \<Rightarrow> Inl e | Inr body \<Rightarrow> py_getitem body arg)"

text \<open>
  The last statement, \<open>raise Exception('Request not implemented: ' + req)\<close>: the
  concatenation itself raises when \<open>req\<close> is not a string.
\<close>

fun unknown_request :: "json \<Rightarrow> exn" where
  "unknown_request (JStr s) = not_implemented s"
| "unknown_request v =
     TypeError (''cannot concatenate '' @ quoted ''str'' @ '' and '' @ quoted (type_name v) @ '' objects'')"

text \<open>
  One \<open>if name in req:\<close> block of \<open>request\<close>: \<open>call\<close> is the return statement of the
  block, \<open>otherwise\<close> the rest of the function.
\<close>

definition request_block ::
  "string \<Rightarrow> json \<Rightarrow> 's \<Rightarrow> ((exn + json) \<times> 's) \<Rightarrow> ((exn + json) \<times> 's) \<Rightarrow> (exn + json) \<times> 's" where
  "request_block name req session call otherwise =
     (case py_contains name req of
        Inl e \<Rightarrow> (Inl e, session)
      | Inr found \<Rightarrow>
          if found
          then (if \<not> has_method name then (Inl (not_implemented name), session) else call)
          else otherwise)"

text \<open>
  A call of a method that the object does not have (never reached: \<open>has_method\<close> guards
  it), and the call of \<open>show_queries\<close> with four arguments where the method takes two.
\<close>

definition missing_method :: "string \<Rightarrow> exn" where
  "missing_method name =
     AttributeError (quoted ''ProtocolService'' @ '' object has no attribute '' @ quoted name)"

definition request ::
  "('i, 'c) plugin \<Rightarrow> string \<Rightarrow> ('i, 'c) session \<Rightarrow> json \<Rightarrow> (exn + json) \<times> ('i, 'c) session" where
  "request p uuid session req =
     (if req = JStr ''protocol''
      then (if \<not> has_method ''protocol'' then (Inl (not_implemented ''protocol''), session)
            else protocol p session)
      else if req = JStr ''version''
      then (if \<not> has_method ''version'' then (Inl (not_implemented ''version''), session)
            else version p session)
      else
      request_block ''load_inputs'' req session
        (case request_arg req ''load_inputs'' ''input'' of
           Inl e \<Rightarrow> (Inl e, session)
         | Inr raw \<Rightarrow> load_inputs p uuid session raw)
     (request_block ''unload_inputs'' req session
        (case request_arg req ''unload_inputs'' ''input'' of
           Inl e \<Rightarrow> (Inl e, session)
         | Inr r \<Rightarrow> (Inl (missing_method ''unload_inputs''), session))
     (request_block ''load_config'' req session
        (case request_arg req ''load_config'' ''config'' of
           Inl e \<Rightarrow> (Inl e, session)
         | Inr raw \<Rightarrow> load_config p uuid session raw)
     (request_block ''unload_config'' req session
        (case request_arg req ''unload_config'' ''config'' of
           Inl e \<Rightarrow> (Inl e, session)
         | Inr r \<Rightarrow> (Inl (missing_method ''unload_config''), session))
     (request_block ''show_queries'' req session
        (case request_arg req ''show_queries'' ''query'' of
           Inl e \<Rightarrow> (Inl e, session)
         | Inr qry \<Rightarrow>
        (case request_arg req ''show_queries'' ''input'' of
           Inl e \<Rightarrow> (Inl e, session)
         | Inr i \<Rightarrow>
        (case request_arg req ''show_queries'' ''config'' of
           Inl e \<Rightarrow> (Inl e, session)
         | Inr c \<Rightarrow>
             (Inl (TypeError ''show_queries() takes exactly 3 arguments (5 given)''), session))))
     (request_block ''run_queries'' req session
        (case request_arg req ''run_queries'' ''query'' of
           Inl e \<Rightarrow> (Inl e, session)
         | Inr qry \<Rightarrow>
        (case request_arg req ''run_queries'' ''input'' of
           Inl e \<Rightarrow> (Inl e, session)
         | Inr i \<Rightarrow>
        (case request_arg req ''run_queries'' ''config'' of
           Inl e \<Rightarrow> (Inl e, session)
         | Inr c \<Rightarrow> run_queries p session qry i c)))
     (request_block ''get_tables'' req session
        (case request_arg req ''get_tables'' ''input'' of
           Inl e \<Rightarrow> (Inl e, session)
         | Inr r \<Rightarrow> (Inl (missing_method ''get_tables''), session))
     (request_block ''get_fields'' req session
        (case request_arg req ''get_fields'' ''input'' of
           Inl e \<Rightarrow> (Inl e, session)
         | Inr r \<Rightarrow> (Inl (missing_method ''get_fields''), session))
     (Inl (unknown_request req), session)))))))))"

text \<open>The ten request names that the dispatcher tests for, in its order.\<close>

definition request_names :: "string list" where
  "request_names =
     [''protocol'', ''version'', ''load_inputs'', ''unload_inputs'', ''load_config'',
      ''unload_config'', ''show_queries'', ''run_queries'', ''get_tables'', ''get_fields'']"

section \<open>test_protocol.TestProtocol\<close>

text \<open>
  The pass-through plugin.  Its handles are the raw values.  \<open>'test_%s' % x\<close> is modelled
  for a string \<open>x\<close>.
\<close>

definition test_name :: "json \<Rightarrow> exn + string" where
  "test_name x = (case x of JStr s \<Rightarrow> Inr (''test_'' @ s) | _ \<Rightarrow> Inl (NotModelled ''%s''))"

fun test_fields :: "json list \<Rightarrow> (string \<times> json) list \<Rightarrow> exn + (string \<times> json) list" where
  "test_fields [] row = Inr row"
| "test_fields (field # rest) row =
     (case test_name field of
        Inl e \<Rightarrow> Inl e
      | Inr name \<Rightarrow>
          test_fields rest
            (AList.update name (JDict [(''Ok'', JDict [(''unicodestring'', JStr ''test'')])]) row))"

fun test_tables :: "(string \<times> json) list \<Rightarrow> (string \<times> json) list \<Rightarrow> exn + (string \<times> json) list" where
  "test_tables [] res = Inr res"
| "test_tables ((table, field_names) # qry) res =
     (case py_iter field_names of
        Inl e \<Rightarrow> Inl e
      | Inr fs \<Rightarrow>
          (case test_fields fs [] of
             Inl e \<Rightarrow> Inl e
           | Inr row \<Rightarrow>
               test_tables qry
                 (AList.update (''test_'' @ table)
                    (JDict [(''Ok'', JDict [(''value'', JList [JDict row]), (''warnings'', JList [])])])
                    res)))"

definition test_run_queries :: "json \<Rightarrow> json \<Rightarrow> json \<Rightarrow> exn + json" where
  "test_run_queries qry input_handle config_handle =
     (case qry of
        JDict items \<Rightarrow> (case test_tables items [] of Inl e \<Rightarrow> Inl e | Inr res \<Rightarrow> Inr (JDict res))
      | _ \<Rightarrow> Inl (AttributeError (quoted (type_name qry) @ '' object has no attribute ''
                     @ quoted ''iteritems'')))"

definition TestProtocol :: "(json, json) plugin" where
  "TestProtocol =
     \<lparr>plugin_protocol = ''test'', plugin_version = ''0.1.0'',
      plugin_load_inputs = Inr, plugin_load_config = Inr,
      plugin_show_queries = (\<lambda>qry. Inr (JStr ''queries: ...'')),
      plugin_run_queries = test_run_queries\<rparr>"

section \<open>UnitySession.get_historic_metric_value\<close>

text \<open>
  A page of \<open>types/metricValue/instances\<close>: its entries and its links.  The timestamp of
  an entry is the number that \<open>time.mktime(dateutil.parser.parse(...).timetuple())\<close>
  gives for it, in whole seconds; \<open>content_values\<close> is \<open>None\<close> when the content has no
  key \<open>'values'\<close>.  A value is a number or a dict of numbers; the numbers are Python ints.
\<close>

datatype metric_value = Scalar int | PerKey "(string \<times> int) list"

record entry =
  content_timestamp :: int
  content_values :: "(string \<times> metric_value) list option"

record link =
  rel :: string
  href :: string

record api_response =
  entries :: "entry list"
  links :: "link list"

text \<open>
  The state kept for one metric path, \<open>{"timestamp": ..., "result": ...}\<close>.  The timestamp
  is \<open>None\<close> when it was stored by a call that met no entry.
\<close>

record ts_entry =
  timestamp :: "int option"
  result :: "row list"

type_synonym timestamps = "string \<rightharpoonup> ts_entry"

type_synonym timeseries = "((string \<times> string option) \<times> int) list"

text \<open>The local variables of the loop.\<close>

record loop_state =
  new_timestamp :: "int option"
  count :: int
  timeseries :: timeseries
  loop_result :: "row list"
  loop_done :: bool

definition initial_state :: loop_state where
  "initial_state =
     \<lparr>new_timestamp = None, count = 0, timeseries = [], loop_result = [], loop_done = False\<rparr>"

text \<open>\<open>ts_entry.get('timestamp', 0)\<close>, where \<open>ts_entry = self.timestamps.get(path, {})\<close>.\<close>

definition old_timestamp_of :: "ts_entry option \<Rightarrow> int option" where
  "old_timestamp_of ts_entry = (case ts_entry of None \<Rightarrow> Some 0 | Some e \<Rightarrow> timestamp e)"

text \<open>\<open>not new_timestamp\<close>, and \<open>ts > old_timestamp\<close>: in Python 2 every number is greater than \<open>None\<close>.\<close>

definition falsy_timestamp :: "int option \<Rightarrow> bool" where
  "falsy_timestamp t = (case t of None \<Rightarrow> True | Some n \<Rightarrow> n = 0)"

definition newer :: "int \<Rightarrow> int option \<Rightarrow> bool" where
  "newer ts old_timestamp = (case old_timestamp of None \<Rightarrow> True | Some t \<Rightarrow> t < ts)"

text \<open>\<open>timeseries[key] = timeseries.setdefault(key, 0) + v\<close>, and the loop over the values of one entry.\<close>

definition add_sample :: "timeseries \<Rightarrow> string \<times> string option \<Rightarrow> int \<Rightarrow> timeseries" where
  "add_sample series key v =
     AList.update key ((case map_of series key of None \<Rightarrow> 0 | Some x \<Rightarrow> x) + v) series"

fun add_values :: "(string \<times> metric_value) list \<Rightarrow> timeseries \<Rightarrow> timeseries" where
  "add_values [] series = series"
| "add_values ((sp, v) # vs) series =
     add_values vs
       (case v of
          PerKey kvs \<Rightarrow> fold (\<lambda>kv s. add_sample s (sp, Some (fst kv)) (snd kv)) kvs series
        | Scalar n \<Rightarrow> add_sample series (sp, None) n)"

text \<open>
  The loop \<open>for entry in api_response['entries']\<close>.  Only the first branch leaves the loop
  (\<open>break\<close>); \<open>ts_entry['result']\<close> raises when there is no state for the path.
\<close>

fun scan_entries :: "ts_entry option \<Rightarrow> entry list \<Rightarrow> loop_state \<Rightarrow> exn + loop_state" where
  "scan_entries ts_entry [] st = Inr st"
| "scan_entries ts_entry (entry # rest) st =
     (let old_timestamp = old_timestamp_of ts_entry;
          ts = content_timestamp entry;
          st1 = (if falsy_timestamp (new_timestamp st) then st\<lparr>new_timestamp := Some ts\<rparr> else st)
      in if new_timestamp st1 = old_timestamp \<and> timeseries st1 = []
         then (case ts_entry of
                 None \<Rightarrow> Inl (KeyError (JStr ''result''))
               | Some e \<Rightarrow> Inr (st1\<lparr>loop_result := result e, loop_done := True\<rparr>))
         else if newer ts old_timestamp \<and> content_values entry \<noteq> None
                 \<and> (count st1 \<le> 5 \<or> old_timestamp \<noteq> Some 0)
         then scan_entries ts_entry rest
                (st1\<lparr>count := count st1 + 1,
                     timeseries := add_values (case content_values entry of None \<Rightarrow> [] | Some vs \<Rightarrow> vs)
                                     (timeseries st1)\<rparr>)
         else scan_entries ts_entry rest (st1\<lparr>loop_done := True\<rparr>))"

text \<open>
  The upstream API is a function from the URL given to \<open>query_api\<close> to its outcome: the
  decoded page, or the exception that \<open>query_api\<close> raises.
\<close>

type_synonym api = "string \<Rightarrow> exn + api_response"

definition metric_url :: "string \<Rightarrow> string \<Rightarrow> string" where
  "metric_url path page =
     ''types/metricValue/instances?filter=path EQ '' @ [CHR 0x22] @ path @ [CHR 0x22] @ page"

text \<open>The loop \<open>for link in api_response['links']\<close>: every \<open>next\<close> link is fetched, the last one stays.\<close>

fun follow_links :: "api \<Rightarrow> string \<Rightarrow> link list \<Rightarrow> bool \<times> api_response \<Rightarrow> exn + bool \<times> api_response" where
  "follow_links api path [] (new_page, api_response) = Inr (new_page, api_response)"
| "follow_links api path (link # rest) (new_page, api_response) =
     (if rel link = ''next''
      then (case api (metric_url path (href link)) of
              Inl e \<Rightarrow> Inl e
            | Inr r \<Rightarrow> follow_links api path rest (True, r))
      else follow_links api path rest (new_page, api_response))"

text \<open>The loop \<open>while not done\<close>.  It need not end: the result is \<open>None\<close> when it does not.\<close>

partial_function (option) while_not_done ::
  "api \<Rightarrow> string \<Rightarrow> ts_entry option \<Rightarrow> api_response \<Rightarrow> loop_state \<Rightarrow> (exn + loop_state) option" where
  "while_not_done api path ts_entry api_response st =
     (case scan_entries ts_entry (entries api_response) st of
        Inl e \<Rightarrow> Some (Inl e)
      | Inr st1 \<Rightarrow>
          if loop_done st1 then Some (Inr st1)
          else (case follow_links api path (links api_response) (False, api_response) of
                  Inl e \<Rightarrow> Some (Inl e)
                | Inr (new_page, next_response) \<Rightarrow>
                    if \<not> new_page then Some (Inr (st1\<lparr>loop_done := True\<rparr>))
                    else while_not_done api path ts_entry next_response st1))"

text \<open>The first query and the loop: the local variables as they are when the loop is left.\<close>

definition accumulate_samples :: "api \<Rightarrow> timestamps \<Rightarrow> string \<Rightarrow> (exn + loop_state) option" where
  "accumulate_samples api stored path =
     (case api (metric_url path []) of
        Inl e \<Rightarrow> Some (Inl e)
      | Inr api_response \<Rightarrow> while_not_done api path (stored path) api_response initial_state)"

text \<open>
  One row of the result, for one item \<open>((sp, k), v)\<close> of \<open>timeseries\<close>; \<open>v / count\<close> is
  Python 2's integer division.
\<close>

definition build_row ::
  "(string \<times> string) list \<Rightarrow> json \<Rightarrow> int \<Rightarrow> (string \<times> string option) \<times> int \<Rightarrow> exn + row" where
  "build_row parameters name n item =
     (let sp = fst (fst item); k = snd (fst item); v = snd item;
          row0 = [];
          row1 = (case map_of parameters ''sp'' of
                    None \<Rightarrow> row0 | Some f \<Rightarrow> AList.update f (JStr sp) row0);
          row2 = (case map_of parameters ''key'' of
                    None \<Rightarrow> row1
                  | Some f \<Rightarrow> (case k of None \<Rightarrow> row1 | Some key \<Rightarrow> AList.update f (JStr key) row1))
      in case (case map_of parameters ''value'' of
                 None \<Rightarrow> Inr row2
               | Some f \<Rightarrow> if n = 0 then Inl ZeroDivisionError
                           else Inr (AList.update f (JInt (v div n)) row2)) of
           Inl e \<Rightarrow> Inl e
         | Inr row3 \<Rightarrow>
             Inr (case map_of parameters ''name'' of
                    None \<Rightarrow> row3 | Some f \<Rightarrow> AList.update f name row3))"

fun build_rows ::
  "(string \<times> string) list \<Rightarrow> json \<Rightarrow> int \<Rightarrow> timeseries \<Rightarrow> exn + row list" where
  "build_rows parameters name n [] = Inr []"
| "build_rows parameters name n (item # items) =
     (case build_row parameters name n item of
        Inl e \<Rightarrow> Inl e
      | Inr row \<Rightarrow>
          (case build_rows parameters name n items of
             Inl e \<Rightarrow> Inl e
           | Inr rows \<Rightarrow> Inr (row # rows)))"

text \<open>
  The function: it returns the rows and \<open>self.timestamps\<close> as it leaves it, or the
  exception raised (then \<open>self.timestamps\<close> has not been assigned).
\<close>

definition get_historic_metric_value ::
  "api \<Rightarrow> timestamps \<Rightarrow> string \<Rightarrow> json \<Rightarrow> (string \<times> string) list
     \<Rightarrow> (exn + row list \<times> timestamps) option" where
  "get_historic_metric_value api stored path name parameters =
     (case accumulate_samples api stored path of
        None \<Rightarrow> None
      | Some (Inl e) \<Rightarrow> Some (Inl e)
      | Some (Inr st) \<Rightarrow>
          (case (if loop_result st = []
                 then build_rows parameters name (count st) (timeseries st)
                 else Inr (loop_result st)) of
             Inl e \<Rightarrow> Some (Inl e)
           | Inr rows \<Rightarrow>
               Some (Inr (rows, stored(path \<mapsto> \<lparr>timestamp = new_timestamp st, result = rows\<rparr>)))))"


section \<open>UnitySession.get_table, try_run and UnityProtocol.run_queries\<close>

text \<open>
  The result envelope \<open>{"Ok": v}\<close> or \<open>{"Err": ...}\<close>, and the value that \<open>get_table\<close>
  returns: \<open>{"warnings": [], "value": [...]}\<close>.
\<close>

datatype 'a envelope = Ok 'a | Err string

record table =
  table_warnings :: "string list"
  table_value :: "(string \<times> json envelope) list list"

text \<open>
  What a command method returns: a list of rows, or a string (\<open>get_resource\<close> and
  \<open>get_pools\<close> return the API's error message as a string).
\<close>

datatype cmd_output = Rows "row list" | Text string

text \<open>
  The loaded inputs: \<open>inputs['DataTables'][key]\<close> has a command name and a command line,
  \<open>inputs['DataFields'][key]\<close> a parameter name.
\<close>

record data_table =
  CommandName :: string
  CommandLine :: string

record data_field =
  ParameterName :: string

record unity_inputs =
  DataTables :: "string \<rightharpoonup> data_table"
  DataFields :: "string \<rightharpoonup> data_field"

text \<open>
  The target of one call of \<open>run_queries\<close>, reached with the loaded configuration:
  \<^item> \<open>login_result\<close>: the response of \<open>session.login()\<close>, or \<open>str(e)\<close> of the exception
    \<open>e\<close> that it raises;
  \<^item> \<open>args_username\<close>: the value of \<open>args.username\<close>, or \<open>str(e)\<close> of the exception that
    evaluating it raises (\<open>args\<close> is a global that only the main block binds, to a
    namespace with \<open>server\<close> and \<open>debug\<close>);
  \<^item> \<open>run_command\<close>: the command method \<open>getattr(self, command_name)\<close> applied to the
    command line, \<open>metrics.get(command_line)\<close> and the parameters, as a function of
    \<open>self.timestamps\<close>; it returns the output and \<open>self.timestamps\<close>, or raises;
  \<^item> \<open>logout_result\<close>: the exception that \<open>session.logout()\<close> raises, if any.
\<close>

record http_response =
  status_code :: int
  response_text :: string

record target =
  login_result :: "string + http_response"
  args_username :: "string + string"
  run_command ::
    "string \<Rightarrow> string \<Rightarrow> (string \<times> string) list \<Rightarrow> timestamps \<Rightarrow> exn + cmd_output \<times> timestamps"
  logout_result :: "exn option"

text \<open>
  What the call does outside the process: the calls made on the session, in order, and
  the state file (\<open>None\<close> when there is no file).
\<close>

datatype event = Login | GetTable string string | Logout | SaveState

record world =
  state_file :: "timestamps option"
  trace :: "event list"

text \<open>
  Modelled from the spec: \<open>RpcException\<close>, the base class of \<open>ProtocolError\<close>, is declared
  in \<open>rpc.server\<close>, which is not among the sources.  \<open>str(e)\<close> of a \<open>ProtocolError\<close> raised
  with a message is taken to be that message, as the spec's scenario for a failed login
  reports it.
\<close>

definition str_ProtocolError :: "string \<Rightarrow> string" where
  "str_ProtocolError message = message"

text \<open>
  The \<open>try\<close> block of \<open>run_queries\<close>, after \<open>session.login()\<close> has been called: the
  message of the \<open>ProtocolError\<close> that the \<open>except\<close> clause raises, if any.
\<close>

definition login_check :: "target \<Rightarrow> string option" where
  "login_check t =
     (case login_result t of
        Inl message \<Rightarrow> Some message
      | Inr response \<Rightarrow>
          if status_code response = 404
          then Some (str_ProtocolError ''HTTP Status 404 - Not Found'')
          else if sublist ''You are not authorized to view this page.'' (response_text response)
          then (case args_username t of
                  Inl message \<Rightarrow> Some message
                | Inr user \<Rightarrow>
                    Some (str_ProtocolError
                            (''You are not authorized to view this page with user: '' @ user)))
          else None)"

text \<open>\<open>UnitySession.get_table\<close>: every value of every row is wrapped in \<open>{"Ok": val}\<close>.\<close>

definition get_table ::
  "target \<Rightarrow> string \<Rightarrow> string \<Rightarrow> (string \<times> string) list \<Rightarrow> timestamps \<Rightarrow> exn + table \<times> timestamps" where
  "get_table t command_name command_line parameters stored =
     (case run_command t command_name command_line parameters stored of
        Inl e \<Rightarrow> Inl e
      | Inr (out, stored') \<Rightarrow>
          (case out of
             Rows rows \<Rightarrow>
               Inr (\<lparr>table_warnings = [],
                     table_value = map (map (\<lambda>fv. (fst fv, Ok (snd fv)))) rows\<rparr>, stored')
           | Text s \<Rightarrow>
               if s = [] then Inr (\<lparr>table_warnings = [], table_value = []\<rparr>, stored')
               else Inl (AttributeError (quoted ''str'' @ '' object has no attribute ''
                           @ quoted ''iteritems''))))"

text \<open>
  \<open>try_run(fun)\<close>, applied to the outcome of \<open>fun()\<close>.  The \<open>try\<close> and \<open>except\<close> lines of
  the function are comments, so an exception of \<open>fun()\<close> leaves \<open>try_run\<close>.
\<close>

definition try_run :: "exn + 'a \<times> 's \<Rightarrow> exn + 'a envelope \<times> 's" where
  "try_run fun_result =
     (case fun_result of Inl e \<Rightarrow> Inl e | Inr (v, s) \<Rightarrow> Inr (Ok v, s))"

text \<open>The dict \<open>{inputs['DataFields']['API_%s' % field]['ParameterName']: field for field in fields}\<close>.\<close>

fun field_parameters ::
  "unity_inputs \<Rightarrow> string list \<Rightarrow> (string \<times> string) list \<Rightarrow> exn + (string \<times> string) list" where
  "field_parameters ins [] parameters = Inr parameters"
| "field_parameters ins (field # rest) parameters =
     (case DataFields ins (''API_'' @ field) of
        None \<Rightarrow> Inl (KeyError (JStr (''API_'' @ field)))
      | Some df \<Rightarrow> field_parameters ins rest (AList.update (ParameterName df) field parameters))"

text \<open>The body of the \<open>lambda\<close> for one table of the query, with the calls it adds to the trace.\<close>

definition table_call ::
  "target \<Rightarrow> unity_inputs \<Rightarrow> string \<Rightarrow> string list \<Rightarrow> timestamps \<Rightarrow> event list
     \<Rightarrow> (exn + table \<times> timestamps) \<times> event list" where
  "table_call t ins table_name field_names stored tr =
     (case DataTables ins (''API_'' @ table_name) of
        None \<Rightarrow> (Inl (KeyError (JStr (''API_'' @ table_name))), tr)
      | Some dt \<Rightarrow>
          (case field_parameters ins field_names [] of
             Inl e \<Rightarrow> (Inl e, tr)
           | Inr parameters \<Rightarrow>
               (get_table t (CommandName dt) (CommandLine dt) parameters stored,
                tr @ [GetTable (CommandName dt) (CommandLine dt)])))"

text \<open>The dict comprehension over \<open>qry.iteritems()\<close>: the first exception ends it.\<close>

fun run_tables ::
  "target \<Rightarrow> unity_inputs \<Rightarrow> (string \<times> string list) list \<Rightarrow> timestamps \<Rightarrow> event list
     \<Rightarrow> (string \<times> table envelope) list
     \<Rightarrow> (exn + (string \<times> table envelope) list \<times> timestamps) \<times> event list" where
  "run_tables t ins [] stored tr res = (Inr (res, stored), tr)"
| "run_tables t ins ((table_name, field_names) # qry) stored tr res =
     (case table_call t ins table_name field_names stored tr of
        (outcome, tr') \<Rightarrow>
          (case try_run outcome of
             Inl e \<Rightarrow> (Inl e, tr')
           | Inr (v, stored') \<Rightarrow>
               run_tables t ins qry stored' tr' (AList.update table_name v res)))"

text \<open>
  \<open>UnityProtocol.run_queries\<close>.  The session reads the state file when it is made; the
  file is written by \<open>save_state\<close> only.
\<close>

definition unity_run_queries ::
  "target \<Rightarrow> world \<Rightarrow> (string \<times> string list) list \<Rightarrow> unity_inputs
     \<Rightarrow> (exn + (string \<times> table envelope) list) \<times> world" where
  "unity_run_queries t w qry ins =
     (let stored = (case state_file w of None \<Rightarrow> Map.empty | Some m \<Rightarrow> m);
          tr = trace w @ [Login]
      in case login_check t of
           Some message \<Rightarrow> (Inl (ProtocolError message), w\<lparr>trace := tr\<rparr>)
         | None \<Rightarrow>
             (case run_tables t ins qry stored tr [] of
                (Inl e, tr') \<Rightarrow> (Inl e, w\<lparr>trace := tr'\<rparr>)
              | (Inr (res, stored'), tr') \<Rightarrow>
                  (case logout_result t of
                     Some e \<Rightarrow> (Inl e, w\<lparr>trace := tr' @ [Logout]\<rparr>)
                   | None \<Rightarrow>
                       (Inr res, \<lparr>state_file = Some stored', trace = tr' @ [Logout, SaveState]\<rparr>))))"

section \<open>Histories of a session\<close>

text \<open>
  The calls of the service's methods on one session, and the session they lead to from a
  given one, together with the loads that have returned a reference on the way: for
  \<open>load_inputs\<close> and for \<open>load_config\<close>, the reference returned and the raw value
  loaded, the latest load first.
\<close>

datatype call =
    CallProtocol
  | CallVersion
  | CallLoadInputs string json
  | CallLoadConfig string json
  | CallShowQueries json
  | CallRunQueries json json json

fun apply_call :: "('i, 'c) plugin \<Rightarrow> call \<Rightarrow> ('i, 'c) session \<Rightarrow> (exn + json) \<times> ('i, 'c) session" where
  "apply_call p CallProtocol session = protocol p session"
| "apply_call p CallVersion session = version p session"
| "apply_call p (CallLoadInputs uuid raw) session = load_inputs p uuid session raw"
| "apply_call p (CallLoadConfig uuid raw) session = load_config p uuid session raw"
| "apply_call p (CallShowQueries qry) session = show_queries p session qry"
| "apply_call p (CallRunQueries qry input_ref config_ref) session =
     run_queries p session qry input_ref config_ref"

fun returned_load :: "(exn + json) \<Rightarrow> json \<Rightarrow> (string \<times> json) list" where
  "returned_load (Inr (JStr r)) raw = [(r, raw)]"
| "returned_load v raw = []"

fun serve ::
  "('i, 'c) plugin \<Rightarrow> call list
     \<Rightarrow> ('i, 'c) session \<times> (string \<times> json) list \<times> (string \<times> json) list
     \<Rightarrow> ('i, 'c) session \<times> (string \<times> json) list \<times> (string \<times> json) list" where
  "serve p [] state = state"
| "serve p (c # calls) (session, input_loads, config_loads) =
     (case apply_call p c session of
        (res, session') \<Rightarrow>
          serve p calls
            (session',
             (case c of
                CallLoadInputs uuid raw \<Rightarrow> returned_load res raw @ input_loads
              | _ \<Rightarrow> input_loads),
             (case c of
                CallLoadConfig uuid raw \<Rightarrow> returned_load res raw @ config_loads
              | _ \<Rightarrow> config_loads)))"

text \<open>
  What holds of a session and the loads so far: a reference is a key of the session's
  dict exactly when a load has returned it, and its handle is the value that the plugin's
  loader returns for the raw value of the latest load that returned it.
\<close>

definition handle_of :: "(json \<Rightarrow> exn + 'h) \<Rightarrow> (string \<times> json) list \<Rightarrow> string \<Rightarrow> 'h option" where
  "handle_of loader loads r =
     (case map_of loads r of
        None \<Rightarrow> None
      | Some raw \<Rightarrow> (case loader raw of Inl e \<Rightarrow> None | Inr h \<Rightarrow> Some h))"

definition registry_inv ::
  "('i, 'c) plugin \<Rightarrow> ('i, 'c) session \<times> (string \<times> json) list \<times> (string \<times> json) list \<Rightarrow> bool" where
  "registry_inv p state =
     (case state of (session, input_loads, config_loads) \<Rightarrow>
        inputs session = handle_of (plugin_load_inputs p) input_loads
        \<and> configs session = handle_of (plugin_load_config p) config_loads
        \<and> list_all (\<lambda>l. case plugin_load_inputs p (snd l) of Inl e \<Rightarrow> False | Inr h \<Rightarrow> True)
              input_loads
        \<and> list_all (\<lambda>l. case plugin_load_config p (snd l) of Inl e \<Rightarrow> False | Inr h \<Rightarrow> True)
              config_loads)"

text \<open>
  A plugin that loads as the test plugin does and whose \<open>run_queries\<close> raises the
  \<open>ProtocolError\<close> of a login answered with status 404.
\<close>

definition refusing_plugin :: "(json, json) plugin" where
  "refusing_plugin =
     \<lparr>plugin_protocol = ''refusing'', plugin_version = ''0.1.0'',
      plugin_load_inputs = Inr, plugin_load_config = Inr,
      plugin_show_queries = (\<lambda>qry. Inr (JStr ''queries: ...'')),
      plugin_run_queries = (\<lambda>qry input_handle config_handle.
                              Inl (ProtocolError ''HTTP Status 404 - Not Found''))\<rparr>"

text \<open>The number of samples folded into the sums when the loop is left (\<open>count\<close>).\<close>

definition samples_accumulated :: "api \<Rightarrow> timestamps \<Rightarrow> string \<Rightarrow> (exn + int) option" where
  "samples_accumulated api stored path =
     (case accumulate_samples api stored path of
        None \<Rightarrow> None
      | Some (Inl e) \<Rightarrow> Some (Inl e)
      | Some (Inr st) \<Rightarrow> Some (Inr (count st)))"

text \<open>An entry that the loop accumulates: newer than the stored timestamp, with values.\<close>

definition new_sample :: "int option \<Rightarrow> entry \<Rightarrow> bool" where
  "new_sample old_timestamp e =
     (newer (content_timestamp e) old_timestamp \<and> content_values e \<noteq> None)"

text \<open>
  The pages that the loop goes through, from a given page on.  Every entry of a page before
  the last is accumulated, and the loop over its links leaves the next page of the list
  in \<open>api_response\<close>.  The last page has an entry that is not accumulated, or the loop
  over its links fetches no page.
\<close>

fun pages_walked :: "api \<Rightarrow> string \<Rightarrow> int option \<Rightarrow> api_response list \<Rightarrow> bool" where
  "pages_walked api path old_timestamp [] = False"
| "pages_walked api path old_timestamp [page] =
     (if list_all (new_sample old_timestamp) (entries page)
      then follow_links api path (links page) (False, page) = Inr (False, page)
      else True)"
| "pages_walked api path old_timestamp (page # next_page # pages) =
     (list_all (new_sample old_timestamp) (entries page)
      \<and> follow_links api path (links page) (False, page) = Inr (True, next_page)
      \<and> pages_walked api path old_timestamp (next_page # pages))"

text \<open>
  Inputs for examples: an entry with one value, an entry without values, an upstream that
  answers every query with one page of given entries and no link, an upstream with two
  pages for the path \<open>p\<close> (the first has a \<open>next\<close> link to the second), and a state with
  one path.
\<close>

definition no_values :: "int \<Rightarrow> entry" where
  "no_values ts = \<lparr>content_timestamp = ts, content_values = None\<rparr>"

definition first_page :: "entry list \<Rightarrow> api_response" where
  "first_page es =
     \<lparr>entries = es,
      links = [\<lparr>rel = ''self'', href = ''&page=1''\<rparr>, \<lparr>rel = ''next'', href = ''&page=2''\<rparr>]\<rparr>"

definition second_page :: "entry list \<Rightarrow> api_response" where
  "second_page es = \<lparr>entries = es, links = [\<lparr>rel = ''self'', href = ''&page=2''\<rparr>]\<rparr>"

definition two_pages :: "entry list \<Rightarrow> entry list \<Rightarrow> api" where
  "two_pages es1 es2 url =
     (if url = metric_url ''p'' [] then Inr (first_page es1)
      else if url = metric_url ''p'' ''&page=2'' then Inr (second_page es2)
      else Inl (PyException ''API responded with 404: not found''))"

definition sample :: "int \<Rightarrow> entry" where
  "sample ts = \<lparr>content_timestamp = ts, content_values = Some [(''spa'', Scalar 1)]\<rparr>"

definition one_page :: "entry list \<Rightarrow> api" where
  "one_page es url = Inr \<lparr>entries = es, links = []\<rparr>"

definition stored_at :: "int \<Rightarrow> row list \<Rightarrow> timestamps" where
  "stored_at t rows = [''p'' \<mapsto> \<lparr>timestamp = Some t, result = rows\<rparr>]"

text \<open>
  Targets and inputs for examples.  \<open>target_404\<close> answers the login with status 404.
  \<open>failing_target\<close> accepts the login; its command \<open>get_pools\<close> raises, every other
  command returns one row.  \<open>example_inputs\<close> maps the table \<open>Disks\<close> to the command
  \<open>get_resource\<close> and the table \<open>Pools\<close> to the command \<open>get_pools\<close>.
\<close>

definition target_404 :: target where
  "target_404 =
     \<lparr>login_result = Inr \<lparr>status_code = 404, response_text = []\<rparr>,
      args_username = Inr ''admin'',
      run_command = (\<lambda>command_name command_line parameters stored.
                       Inr (Rows [[(''name'', JStr ''d0'')]], stored)),
      logout_result = None\<rparr>"

definition failing_target :: target where
  "failing_target =
     \<lparr>login_result = Inr \<lparr>status_code = 200, response_text = []\<rparr>,
      args_username = Inr ''admin'',
      run_command = (\<lambda>command_name command_line parameters stored.
                       if command_name = ''get_pools''
                       then Inl (PyException ''API responded with 500: error'')
                       else Inr (Rows [[(''name'', JStr ''d0'')]], stored)),
      logout_result = None\<rparr>"

definition example_inputs :: unity_inputs where
  "example_inputs =
     \<lparr>DataTables = [''API_Disks'' \<mapsto> \<lparr>CommandName = ''get_resource'', CommandLine = ''disk''\<rparr>,
                    ''API_Pools'' \<mapsto> \<lparr>CommandName = ''get_pools'', CommandLine = ''pool''\<rparr>],
      DataFields = [''API_name'' \<mapsto> \<lparr>ParameterName = ''name''\<rparr>]\<rparr>"

definition new_world :: world where
  "new_world = \<lparr>state_file = None, trace = []\<rparr>"

section \<open>What follow_path computes\<close>

lemma follow_branch_safe:
  "star_safe branch \<Longrightarrow> follow_branch step branch = Inr (branch_items step branch)"
  by (cases branch) (auto simp: star_safe_def follow_branch_def branch_items_def)

lemma follow_branch_unsafe:
  "\<not> star_safe branch \<Longrightarrow> follow_branch ''*'' branch = Inl (not_iterable_error branch)"
  by (cases branch) (auto simp: star_safe_def follow_branch_def not_iterable_error_def split: if_splits)

lemma follow_branch_plain:
  "step \<noteq> ''*'' \<Longrightarrow> follow_branch step branch = Inr (branch_items step branch)"
  by (simp add: follow_branch_def branch_items_def)

lemma follow_step_safe:
  "(step = ''*'' \<Longrightarrow> list_all star_safe tree) \<Longrightarrow>
   follow_step step tree acc = Inr (acc @ concat (map (branch_items step) tree))"
proof (induction tree arbitrary: acc)
  case Nil
  show ?case by simp
next
  case (Cons branch tree)
  have b: "follow_branch step branch = Inr (branch_items step branch)"
  proof (cases "step = ''*''")
    case True
    with Cons.prems have "star_safe branch" by simp
    then show ?thesis by (rule follow_branch_safe)
  next
    case False
    then show ?thesis by (rule follow_branch_plain)
  qed
  have "step = ''*'' \<Longrightarrow> list_all star_safe tree" using Cons.prems by simp
  from Cons.IH [OF this] show ?case by (simp add: b)
qed

lemma follow_step_unsafe:
  "\<not> list_all star_safe tree \<Longrightarrow>
   \<exists>b. truthy b \<and> \<not> iterable b \<and> follow_step ''*'' tree acc = Inl (not_iterable_error b)"
proof (induction tree arbitrary: acc)
  case Nil
  then show ?case by simp
next
  case (Cons branch tree)
  show ?case
  proof (cases "star_safe branch")
    case True
    with Cons.prems have "\<not> list_all star_safe tree" by simp
    from Cons.IH [OF this] show ?thesis by (simp add: follow_branch_safe [OF True])
  next
    case False
    then have "truthy branch \<and> \<not> iterable branch"
      by (auto simp: star_safe_def split: if_splits)
    then show ?thesis using follow_branch_unsafe [OF False] by auto
  qed
qed

lemma follow_steps_safe:
  "walk_safe path tree \<Longrightarrow> follow_steps path tree = Inr (walk_items path tree)"
proof (induction path arbitrary: tree)
  case Nil
  show ?case by simp
next
  case (Cons step path)
  from Cons.prems have s: "step = ''*'' \<Longrightarrow> list_all star_safe tree"
    and w: "walk_safe path (concat (map (branch_items step) tree))"
    by (auto split: if_splits)
  show ?case by (simp add: follow_step_safe [OF s] Cons.IH [OF w])
qed

lemma follow_steps_unsafe:
  "\<not> walk_safe path tree \<Longrightarrow>
   ''*'' \<in> set path \<and>
   (\<exists>b. truthy b \<and> \<not> iterable b \<and> follow_steps path tree = Inl (not_iterable_error b))"
proof (induction path arbitrary: tree)
  case Nil
  then show ?case by simp
next
  case (Cons step path)
  show ?case
  proof (cases "step = ''*'' \<and> \<not> list_all star_safe tree")
    case True
    then obtain b where "truthy b" "\<not> iterable b"
      "follow_step ''*'' tree [] = Inl (not_iterable_error b)"
      using follow_step_unsafe by blast
    with True show ?thesis by auto
  next
    case False
    then have s: "step = ''*'' \<Longrightarrow> list_all star_safe tree" by blast
    with Cons.prems have "\<not> walk_safe path (concat (map (branch_items step) tree))" by auto
    from Cons.IH [OF this] show ?thesis by (auto simp: follow_step_safe [OF s])
  qed
qed

text \<open>
  C10 (as stated, refuted): \<open>follow_path\<close> does not return a list for every tree and path.
  On the tree \<open>{"size": 5}\<close> and the path \<open>size.*\<close> the \<open>'*'\<close> step meets the number 5,
  which is truthy and cannot be iterated, and \<open>follow_path\<close> raises \<open>TypeError\<close>.
\<close>

theorem follow_path_raises_on_number:
  "follow_path (JDict [(''size'', JInt 5)]) [''size'', ''*''] = Inl (not_iterable_error (JInt 5))"
  by (simp add: follow_path_def follow_branch_def not_iterable_error_def)

text \<open>
  C10 (amended): \<open>follow_path\<close> returns a list exactly when no \<open>'*'\<close> step of the path meets
  a branch that is truthy and cannot be iterated (a number other than zero, or \<open>True\<close>);
  otherwise it raises the \<open>TypeError\<close> of such a branch.  When it returns, a step other
  than \<open>'*'\<close> applied to a branch that is not a dict yields \<open>None\<close> for that branch, a
  \<open>'*'\<close> step applied to a falsy branch contributes no branches, and a \<open>'*'\<close> step applied
  to a list contributes its elements.
\<close>

theorem follow_path_walk:
  "(\<forall>dictionary path. walk_safe path (branches_of dictionary) \<longrightarrow>
      follow_path dictionary path = Inr (walk_items path (branches_of dictionary)))
   \<and> (\<forall>dictionary path. \<not> walk_safe path (branches_of dictionary) \<longrightarrow>
      ''*'' \<in> set path \<and>
      (\<exists>b. truthy b \<and> \<not> iterable b \<and> follow_path dictionary path = Inl (not_iterable_error b)))
   \<and> (\<forall>step branch. step \<noteq> ''*'' \<longrightarrow> (\<forall>kvs. branch \<noteq> JDict kvs) \<longrightarrow>
      branch_items step branch = [JNull])
   \<and> (\<forall>branch. \<not> truthy branch \<longrightarrow> branch_items ''*'' branch = [])
   \<and> (\<forall>xs. branch_items ''*'' (JList xs) = xs)"
proof (intro conjI allI impI)
  fix dictionary path
  assume "walk_safe path (branches_of dictionary)"
  then show "follow_path dictionary path = Inr (walk_items path (branches_of dictionary))"
    by (simp add: follow_path_def branches_of_def follow_steps_safe)
next
  fix dictionary path
  assume "\<not> walk_safe path (branches_of dictionary)"
  from follow_steps_unsafe [OF this]
  show "''*'' \<in> set path" 
    and "\<exists>b. truthy b \<and> \<not> iterable b \<and> follow_path dictionary path = Inl (not_iterable_error b)"
    by (simp_all add: follow_path_def branches_of_def)
next
  fix step branch
  assume "step \<noteq> ''*''" "\<forall>kvs. branch \<noteq> JDict kvs"
  then show "branch_items step branch = [JNull]"
    by (cases branch) (simp_all add: branch_items_def)
next
  fix branch
  assume "\<not> truthy branch"
  then show "branch_items ''*'' branch = []"
    by (cases branch) (simp_all add: branch_items_def)
next
  fix xs
  show "branch_items ''*'' (JList xs) = xs"
    by (simp add: branch_items_def)
qed

theorem follow_path_walk_witness:
  "walk_safe [''a'', ''*'', ''b'']
     (branches_of (JDict [(''a'', JList [JDict [(''b'', JStr ''x'')], JNull, JInt 3])]))
   \<and> follow_path (JDict [(''a'', JList [JDict [(''b'', JStr ''x'')], JNull, JInt 3])])
        [''a'', ''*'', ''b''] = Inr [JStr ''x'', JNull, JNull]
   \<and> \<not> walk_safe [''a'', ''*''] (branches_of (JDict [(''a'', JBool True)]))
   \<and> (\<exists>b. truthy b \<and> \<not> iterable b
        \<and> follow_path (JDict [(''a'', JBool True)]) [''a'', ''*''] = Inl (not_iterable_error b))
   \<and> ''b'' \<noteq> ''*'' \<and> (\<forall>kvs. JInt 3 \<noteq> JDict kvs) \<and> branch_items ''b'' (JInt 3) = [JNull]
   \<and> \<not> truthy JNull \<and> branch_items ''*'' JNull = []"
proof -
  have safe: "walk_safe [''a'', ''*'', ''b'']
     (branches_of (JDict [(''a'', JList [JDict [(''b'', JStr ''x'')], JNull, JInt 3])]))"
    by (simp add: branches_of_def branch_items_def star_safe_def)
  have unsafe: "\<not> walk_safe [''a'', ''*''] (branches_of (JDict [(''a'', JBool True)]))"
    by (simp add: branches_of_def branch_items_def star_safe_def)
  have plain: "''b'' \<noteq> ''*''" "\<forall>kvs. JInt 3 \<noteq> JDict kvs" "\<not> truthy JNull" by simp_all
  note w = follow_path_walk
  have 1: "follow_path (JDict [(''a'', JList [JDict [(''b'', JStr ''x'')], JNull, JInt 3])])
        [''a'', ''*'', ''b''] = Inr [JStr ''x'', JNull, JNull]"
    using w [THEN conjunct1, rule_format, OF safe]
    by (simp add: branches_of_def branch_items_def)
  have 2: "\<exists>b. truthy b \<and> \<not> iterable b
        \<and> follow_path (JDict [(''a'', JBool True)]) [''a'', ''*''] = Inl (not_iterable_error b)"
    using w [THEN conjunct2, THEN conjunct1, rule_format, OF unsafe] by (rule conjunct2)
  have 3: "branch_items ''b'' (JInt 3) = [JNull]"
    using w [THEN conjunct2, THEN conjunct2, THEN conjunct1, rule_format, OF plain(1)] by simp
  have 4: "branch_items ''*'' JNull = []"
    using w [THEN conjunct2, THEN conjunct2, THEN conjunct2, THEN conjunct1, rule_format, OF plain(3)] .
  show ?thesis
    by (intro conjI safe unsafe plain 1 2 3 4)
qed

section \<open>What fill_in_row does with a duration\<close>

lemma split_on_append: "sep \<notin> set xs \<Longrightarrow> split_on sep (xs @ sep # ys) = xs # split_on sep ys"
  by (induction xs) auto

lemma split_on_no_sep: "sep \<notin> set xs \<Longrightarrow> split_on sep xs = [xs]"
  by (induction xs) auto

lemma render_steps:
  assumes "c1 \<noteq> []" "c2 \<noteq> []" "c3 \<noteq> []" "c4 \<noteq> []" "c5 \<noteq> []"
  shows "(let result0 = [];
        result1 = (if b1 then result0 @ c1 else result0);
        result2 = (if b2 then result1 @ (if result1 \<noteq> [] then '', '' else []) @ c2 else result1);
        result3 = (if b3 then result2 @ (if result2 \<noteq> [] then '', '' else []) @ c3 else result2);
        result4 = (if b4 then result3 @ (if result3 \<noteq> [] then '', '' else []) @ c4 else result3);
        result5 = (if b5 then result4 @ (if result4 \<noteq> [] then '', '' else []) @ c5 else result4)
    in result5) = join '', '' (map snd (filter fst [(b1, c1), (b2, c2), (b3, c3), (b4, c4), (b5, c5)]))"
  using assms by (cases b1; cases b2; cases b3; cases b4; cases b5) (simp_all add: Let_def)

lemma digit_not_separator:
  "is_digit c \<Longrightarrow> c \<noteq> CHR '':''" "is_digit c \<Longrightarrow> c \<noteq> CHR ''.''"
  by (auto simp: is_digit_def)

lemma digits_no_colon: "list_all is_digit hs \<Longrightarrow> CHR '':'' \<notin> set hs"
  by (auto simp: list_all_iff dest: digit_not_separator)

lemma takeWhile_digits:
  "list_all is_digit hs \<Longrightarrow> \<not> is_digit c \<Longrightarrow> takeWhile is_digit (hs @ c # rest) = hs"
  by (induction hs) auto

lemma dropWhile_digits:
  "list_all is_digit hs \<Longrightarrow> \<not> is_digit c \<Longrightarrow> dropWhile is_digit (hs @ c # rest) = c # rest"
  by (induction hs) auto

lemma duration_match_leaf:
  assumes "list_all is_digit hs" "1 \<le> length hs" "length hs \<le> 5"
    and "list_all is_digit [m1, m2, s1, s2, f1, f2, f3]"
  shows "duration_match (duration_leaf hs m1 m2 s1 s2 f1 f2 f3)"
proof -
  have nd: "\<not> is_digit CHR '':''" by (simp add: is_digit_def)
  show ?thesis
    unfolding duration_match_def duration_leaf_def
    using assms by (simp add: takeWhile_digits [OF assms(1) nd] dropWhile_digits [OF assms(1) nd])
qed

lemma py_float_leaf:
  assumes "list_all is_digit [s1, s2, f1, f2, f3]"
  shows "py_float [s1, s2, CHR ''.'', f1, f2, f3]
       = Inr (decimal_value [s1, s2] * 1000000 + decimal_value [f1, f2, f3] * 1000)"
  using assms by (auto simp: py_float_def dest: digit_not_separator)

lemma format_duration_leaf:
  assumes "list_all is_digit hs" "1 \<le> length hs" "length hs \<le> 5"
    and "list_all is_digit [m1, m2, s1, s2, f1, f2, f3]"
  shows "format_duration (duration_leaf hs m1 m2 s1 s2 f1 f2 f3)
       = Inr (render_duration (int (decimal_value hs)) (int (decimal_value [m1, m2]))
               (decimal_value [s1, s2] * 1000000 + decimal_value [f1, f2, f3] * 1000))"
proof -
  have hs_ne: "hs \<noteq> []" using assms(2) by auto
  have split: "split_on CHR '':'' (duration_leaf hs m1 m2 s1 s2 f1 f2 f3)
      = [hs, [m1, m2], [s1, s2, CHR ''.'', f1, f2, f3]]"
    using assms(4)
      split_on_append [OF digits_no_colon [OF assms(1)],
        of "[m1, m2, CHR '':'', s1, s2, CHR ''.'', f1, f2, f3]"]
    by (auto simp: duration_leaf_def dest: digit_not_separator)
  have i0: "py_int hs = Inr (int (decimal_value hs))"
    using assms(1) hs_ne by (simp add: py_int_def)
  have i1: "py_int [m1, m2] = Inr (int (decimal_value [m1, m2]))"
    using assms(4) by (simp add: py_int_def)
  have fl: "py_float [s1, s2, CHR ''.'', f1, f2, f3]
       = Inr (decimal_value [s1, s2] * 1000000 + decimal_value [f1, f2, f3] * 1000)"
    using assms(4) by (intro py_float_leaf) simp
  show ?thesis
    unfolding format_duration_def split
    by (simp add: py_index_def i0 i1 fl render_duration_def duration_components_def
          render_steps [unfolded Let_def] Let_def del: join.simps)
qed

lemma example_fields:
  "decimal_value ''26'' = 26" "decimal_value ''30'' = 30"
  "decimal_value ''15'' = 15" "decimal_value ''500'' = 500"
  by (simp_all add: decimal_value_def digit_value_def)

lemma example_numerals:
  "show_int 0 = ''0''" "show_int 1 = ''1''" "show_int 2 = ''2''" "show_int 30 = ''30''"
  "format_f 15500000 = ''15.500000''"
  by (simp_all add: show_int_def format_f_def digit_char_def)

lemma example_rendered:
  "render_duration 26 30 15500000 = ''1 days, 2 hours, 30 minutes, 15.500000 seconds''"
  by (simp add: render_duration_def duration_components_def example_numerals)

lemma example_leaf:
  "duration_leaf ''26'' CHR ''3'' CHR ''0'' CHR ''1'' CHR ''5'' CHR ''5'' CHR ''0'' CHR ''0''
     = ''26:30:15.500''"
  by (simp add: duration_leaf_def)

lemma example_digits:
  "list_all is_digit ''26''" "1 \<le> length ''26''" "length ''26'' \<le> 5"
  "list_all is_digit ''3015500''"
  by (simp_all add: is_digit_def)

lemma duration_example:
  "format_duration ''26:30:15.500'' = Inr ''1 days, 2 hours, 30 minutes, 15.500000 seconds''"
  using format_duration_leaf [OF example_digits]
  by (simp add: example_leaf example_fields example_rendered)

lemma duration_example_match: "duration_match ''26:30:15.500''"
  by (simp add: duration_match_def is_digit_def)

text \<open>
  C9 (as stated, refuted): the duration \<open>"26:30:15.500"\<close> is not rendered with a year.  The
  first field counts hours: 26 hours are 0 years, 1 day and 2 hours, and the component
  equal to zero is left out.
\<close>

theorem fill_in_row_example_has_no_years:
  "fill_in_row [(''uptime'', ''Uptime'')] (JDict [(''uptime'', JStr ''26:30:15.500'')])
     = Inr [(''Uptime'', JStr ''1 days, 2 hours, 30 minutes, 15.500000 seconds'')]
   \<and> fill_in_row [(''uptime'', ''Uptime'')] (JDict [(''uptime'', JStr ''26:30:15.500'')])
     \<noteq> Inr [(''Uptime'', JStr ''1 years, 1 days, 2 hours, 30 minutes, 15.500000 seconds'')]"
  by (simp add: fill_in_row_def follow_path_def follow_branch_def row_value_def
        duration_example duration_example_match)

text \<open>
  C9 (amended): when the walk for a parameter yields exactly one leaf and the leaf is a
  string of the shape \<open>H:MM:SS.mmm\<close> (one to five digits of hours, two of minutes, two of
  seconds, three of milliseconds), \<open>fill_in_row\<close> stores for the data field the components
  years, days, hours, minutes and seconds of the duration, in this order, those equal to
  zero left out, joined by a comma and a space.  So \<open>"26:30:15.500"\<close> is rendered as
  \<open>"1 days, 2 hours, 30 minutes, 15.500000 seconds"\<close> (the witness below).
\<close>

theorem fill_in_row_duration:
  assumes "follow_path tree (split_on CHR ''.'' parameter)
             = Inr [JStr (duration_leaf hs m1 m2 s1 s2 f1 f2 f3)]"
    and "list_all is_digit hs" "1 \<le> length hs" "length hs \<le> 5"
    and "list_all is_digit [m1, m2, s1, s2, f1, f2, f3]"
  shows "fill_in_row [(parameter, datafield)] tree
       = Inr [(datafield,
               JStr (render_duration (int (decimal_value hs)) (int (decimal_value [m1, m2]))
                       (decimal_value [s1, s2] * 1000000 + decimal_value [f1, f2, f3] * 1000)))]"
  using assms(1) duration_match_leaf [OF assms(2-5)] format_duration_leaf [OF assms(2-5)]
  by (simp add: fill_in_row_def row_value_def)

theorem fill_in_row_duration_witness:
  "follow_path (JDict [(''uptime'', JStr ''26:30:15.500'')]) (split_on CHR ''.'' ''uptime'')
     = Inr [JStr (duration_leaf ''26'' CHR ''3'' CHR ''0'' CHR ''1'' CHR ''5'' CHR ''5'' CHR ''0'' CHR ''0'')]
   \<and> list_all is_digit ''26'' \<and> 1 \<le> length ''26'' \<and> length ''26'' \<le> 5
   \<and> list_all is_digit ''3015500''
   \<and> fill_in_row [(''uptime'', ''Uptime'')] (JDict [(''uptime'', JStr ''26:30:15.500'')])
       = Inr [(''Uptime'', JStr ''1 days, 2 hours, 30 minutes, 15.500000 seconds'')]"
proof -
  have walk: "follow_path (JDict [(''uptime'', JStr ''26:30:15.500'')]) (split_on CHR ''.'' ''uptime'')
     = Inr [JStr (duration_leaf ''26'' CHR ''3'' CHR ''0'' CHR ''1'' CHR ''5'' CHR ''5'' CHR ''0'' CHR ''0'')]"
    by (simp add: follow_path_def follow_branch_def duration_leaf_def)
  note d = example_digits
  from fill_in_row_duration [OF walk d, of "''Uptime''"]
  have "fill_in_row [(''uptime'', ''Uptime'')] (JDict [(''uptime'', JStr ''26:30:15.500'')])
       = Inr [(''Uptime'', JStr ''1 days, 2 hours, 30 minutes, 15.500000 seconds'')]"
    by (simp add: example_fields example_rendered)
  with walk d show ?thesis by (intro conjI)
qed

section \<open>The dispatcher and the session registry\<close>

lemma request_block_absent:
  "py_contains name req = Inr False \<Longrightarrow> request_block name req session c otherwise = otherwise"
  by (simp add: request_block_def)

lemma request_block_missing:
  "py_contains name req = Inr True \<Longrightarrow> \<not> has_method name \<Longrightarrow>
   request_block name req session c otherwise = (Inl (not_implemented name), session)"
  by (simp add: request_block_def)

lemma has_method_simps:
  "has_method ''protocol''" "has_method ''version''" "has_method ''load_inputs''"
  "has_method ''load_config''" "has_method ''show_queries''" "has_method ''run_queries''"
  "\<not> has_method ''unload_inputs''" "\<not> has_method ''unload_config''"
  "\<not> has_method ''get_tables''" "\<not> has_method ''get_fields''"
  by (simp_all add: has_method_def service_methods_def)

lemma request_unload_inputs:
  "request p uuid session (JDict [(''unload_inputs'', body)])
     = (Inl (not_implemented ''unload_inputs''), session)"
proof -
  let ?req = "JDict [(''unload_inputs'', body)]"
  have tags: "?req \<noteq> JStr ''protocol''" "?req \<noteq> JStr ''version''" by simp_all
  have a0: "py_contains ''load_inputs'' ?req = Inr False" by simp
  have found: "py_contains ''unload_inputs'' ?req = Inr True" by simp
  have absent: "\<not> has_method ''unload_inputs''" by (rule has_method_simps)
  show ?thesis
    unfolding request_def
    by (simp only: tags if_False request_block_absent [OF a0]
          request_block_missing [OF found absent])
qed

lemma request_unload_config:
  "request p uuid session (JDict [(''unload_config'', body)])
     = (Inl (not_implemented ''unload_config''), session)"
proof -
  let ?req = "JDict [(''unload_config'', body)]"
  have tags: "?req \<noteq> JStr ''protocol''" "?req \<noteq> JStr ''version''" by simp_all
  have a0: "py_contains ''load_inputs'' ?req = Inr False" by simp
  have a1: "py_contains ''unload_inputs'' ?req = Inr False" by simp
  have a2: "py_contains ''load_config'' ?req = Inr False" by simp
  have found: "py_contains ''unload_config'' ?req = Inr True" by simp
  have absent: "\<not> has_method ''unload_config''" by (rule has_method_simps)
  show ?thesis
    unfolding request_def
    by (simp only: tags if_False request_block_absent [OF a0] request_block_absent [OF a1] request_block_absent [OF a2]
          request_block_missing [OF found absent])
qed

lemma request_get_tables:
  "request p uuid session (JDict [(''get_tables'', body)])
     = (Inl (not_implemented ''get_tables''), session)"
proof -
  let ?req = "JDict [(''get_tables'', body)]"
  have tags: "?req \<noteq> JStr ''protocol''" "?req \<noteq> JStr ''version''" by simp_all
  have a0: "py_contains ''load_inputs'' ?req = Inr False" by simp
  have a1: "py_contains ''unload_inputs'' ?req = Inr False" by simp
  have a2: "py_contains ''load_config'' ?req = Inr False" by simp
  have a3: "py_contains ''unload_config'' ?req = Inr False" by simp
  have a4: "py_contains ''show_queries'' ?req = Inr False" by simp
  have a5: "py_contains ''run_queries'' ?req = Inr False" by simp
  have found: "py_contains ''get_tables'' ?req = Inr True" by simp
  have absent: "\<not> has_method ''get_tables''" by (rule has_method_simps)
  show ?thesis
    unfolding request_def
    by (simp only: tags if_False request_block_absent [OF a0] request_block_absent [OF a1] request_block_absent [OF a2] request_block_absent [OF a3] request_block_absent [OF a4] request_block_absent [OF a5]
          request_block_missing [OF found absent])
qed

lemma request_get_fields:
  "request p uuid session (JDict [(''get_fields'', body)])
     = (Inl (not_implemented ''get_fields''), session)"
proof -
  let ?req = "JDict [(''get_fields'', body)]"
  have tags: "?req \<noteq> JStr ''protocol''" "?req \<noteq> JStr ''version''" by simp_all
  have a0: "py_contains ''load_inputs'' ?req = Inr False" by simp
  have a1: "py_contains ''unload_inputs'' ?req = Inr False" by simp
  have a2: "py_contains ''load_config'' ?req = Inr False" by simp
  have a3: "py_contains ''unload_config'' ?req = Inr False" by simp
  have a4: "py_contains ''show_queries'' ?req = Inr False" by simp
  have a5: "py_contains ''run_queries'' ?req = Inr False" by simp
  have a6: "py_contains ''get_tables'' ?req = Inr False" by simp
  have found: "py_contains ''get_fields'' ?req = Inr True" by simp
  have absent: "\<not> has_method ''get_fields''" by (rule has_method_simps)
  show ?thesis
    unfolding request_def
    by (simp only: tags if_False request_block_absent [OF a0] request_block_absent [OF a1] request_block_absent [OF a2] request_block_absent [OF a3] request_block_absent [OF a4] request_block_absent [OF a5] request_block_absent [OF a6]
          request_block_missing [OF found absent])
qed

lemma request_unknown:
  assumes "req \<noteq> JStr ''protocol''" "req \<noteq> JStr ''version''"
    and "\<forall>name \<in> set (drop 2 request_names). py_contains name req = Inr False"
  shows "request p uuid session req = (Inl (unknown_request req), session)"
proof -
  from assms(3) have absent:
    "py_contains ''load_inputs'' req = Inr False" "py_contains ''unload_inputs'' req = Inr False"
    "py_contains ''load_config'' req = Inr False" "py_contains ''unload_config'' req = Inr False"
    "py_contains ''show_queries'' req = Inr False" "py_contains ''run_queries'' req = Inr False"
    "py_contains ''get_tables'' req = Inr False" "py_contains ''get_fields'' req = Inr False"
    by (simp_all add: request_names_def)
  show ?thesis
    unfolding request_def
    by (simp only: assms(1,2) if_False request_block_absent [OF absent(1)]
          request_block_absent [OF absent(2)] request_block_absent [OF absent(3)]
          request_block_absent [OF absent(4)] request_block_absent [OF absent(5)]
          request_block_absent [OF absent(6)] request_block_absent [OF absent(7)]
          request_block_absent [OF absent(8)])
qed

lemma frobnicate_contains_no_name:
  "list_all (\<lambda>name. \<not> sublist name ''frobnicate'') (drop 2 request_names)"
  by (simp add: request_names_def sublist_code prefix_code)

lemma request_block_call:
  "py_contains name req = Inr True \<Longrightarrow> has_method name \<Longrightarrow>
   request_block name req session c otherwise = c"
  by (simp add: request_block_def)

lemma request_load_config:
  "request p uuid session (JDict [(''load_config'', JDict [(''config'', raw)])])
     = load_config p uuid session raw"
proof -
  let ?req = "JDict [(''load_config'', JDict [(''config'', raw)])]"
  have tags: "?req \<noteq> JStr ''protocol''" "?req \<noteq> JStr ''version''" by simp_all
  have a0: "py_contains ''load_inputs'' ?req = Inr False" by simp
  have a1: "py_contains ''unload_inputs'' ?req = Inr False" by simp
  have found: "py_contains ''load_config'' ?req = Inr True" by simp
  have present: "has_method ''load_config''" by (rule has_method_simps)
  have arg: "request_arg ?req ''load_config'' ''config'' = Inr raw"
    by (simp add: request_arg_def)
  show ?thesis
    unfolding request_def
    by (simp only: tags if_False request_block_absent [OF a0] request_block_absent [OF a1]
          request_block_call [OF found present] arg sum.case)
qed

text \<open>
  C6 (as stated, refuted): \<open>unload_config\<close> does not remove a handle.  In a session of the
  test plugin, \<open>load_config\<close> returns the reference \<open>r1\<close>; the request \<open>unload_config\<close>
  for \<open>r1\<close> then fails with \<open>Request not implemented: unload_config\<close> and the handle is
  still in the session.
\<close>

theorem unload_config_keeps_handle:
  "request TestProtocol ''r1'' ProtocolSession
       (JDict [(''load_config'', JDict [(''config'', JStr ''cfg'')])])
     = (Inr (JStr ''r1''), \<lparr>inputs = Map.empty, configs = [''r1'' \<mapsto> JStr ''cfg'']\<rparr>)
   \<and> request TestProtocol ''r2'' \<lparr>inputs = Map.empty, configs = [''r1'' \<mapsto> JStr ''cfg'']\<rparr>
       (JDict [(''unload_config'', JDict [(''config'', JStr ''r1'')])])
     = (Inl (PyException ''Request not implemented: unload_config''),
        \<lparr>inputs = Map.empty, configs = [''r1'' \<mapsto> JStr ''cfg'']\<rparr>)"
  by (simp add: request_load_config request_unload_config load_config_def TestProtocol_def
        ProtocolSession_def not_implemented_def)

text \<open>
  C6 (amended): \<open>ProtocolService\<close> has no method \<open>unload_config\<close> or \<open>unload_inputs\<close>.
  The dispatcher recognises both requests and answers each of them, for every reference,
  known to the session or not, with the exception \<open>Request not implemented: unload_config\<close>
  (or \<open>unload_inputs\<close>); the session is left as it was.
\<close>

theorem unload_not_implemented:
  "request p uuid session (JDict [(''unload_config'', JDict [(''config'', ref)])])
     = (Inl (PyException ''Request not implemented: unload_config''), session)
   \<and> request p uuid session (JDict [(''unload_inputs'', JDict [(''input'', ref)])])
     = (Inl (PyException ''Request not implemented: unload_inputs''), session)"
  by (simp add: request_unload_config request_unload_inputs not_implemented_def)

text \<open>
  C7 (as stated, refuted): a request that is a dict with the unknown tag \<open>frobnicate\<close> is
  answered with a \<open>TypeError\<close> about concatenating \<open>str\<close> and \<open>dict\<close>, which does not name
  the tag; and the unknown tag \<open>frobnicate\<close> sent as a string gets the same exception, with
  the same text before the name, as the recognised request \<open>get_tables\<close> whose method is
  absent: the two cases are not distinct errors.
\<close>

theorem unknown_tag_errors:
  "request TestProtocol ''u'' ProtocolSession (JDict [(''frobnicate'', JNull)])
     = (Inl (TypeError (''cannot concatenate '' @ quoted ''str'' @ '' and '' @ quoted ''dict''
               @ '' objects'')), ProtocolSession)
   \<and> request TestProtocol ''u'' ProtocolSession (JStr ''frobnicate'')
     = (Inl (PyException (''Request not implemented: '' @ ''frobnicate'')), ProtocolSession)
   \<and> request TestProtocol ''u'' ProtocolSession (JDict [(''get_tables'', JNull)])
     = (Inl (PyException (''Request not implemented: '' @ ''get_tables'')), ProtocolSession)"
proof (intro conjI)
  have "\<forall>name \<in> set (drop 2 request_names).
          py_contains name (JDict [(''frobnicate'', JNull)]) = Inr False"
    by (simp add: request_names_def)
  then show "request TestProtocol ''u'' ProtocolSession (JDict [(''frobnicate'', JNull)])
     = (Inl (TypeError (''cannot concatenate '' @ quoted ''str'' @ '' and '' @ quoted ''dict''
               @ '' objects'')), ProtocolSession)"
    by (simp add: request_unknown)
next
  have "\<forall>name \<in> set (drop 2 request_names). py_contains name (JStr ''frobnicate'') = Inr False"
    using frobnicate_contains_no_name by (simp add: list_all_iff)
  then show "request TestProtocol ''u'' ProtocolSession (JStr ''frobnicate'')
     = (Inl (PyException (''Request not implemented: '' @ ''frobnicate'')), ProtocolSession)"
    by (simp add: request_unknown not_implemented_def)
next
  show "request TestProtocol ''u'' ProtocolSession (JDict [(''get_tables'', JNull)])
     = (Inl (PyException (''Request not implemented: '' @ ''get_tables'')), ProtocolSession)"
    by (simp add: request_get_tables not_implemented_def)
qed

text \<open>
  C7 (amended): a request that is a string, is not \<open>protocol\<close> or \<open>version\<close> and contains
  none of the other eight request names, is answered with the exception
  \<open>Request not implemented:\<close> followed by the string; a request that is a dict with the one
  key \<open>name\<close>, where \<open>name\<close> is a request name for which \<open>ProtocolService\<close> has no method
  (\<open>unload_inputs\<close>, \<open>unload_config\<close>, \<open>get_tables\<close>, \<open>get_fields\<close>), is answered with
  the same exception class and the same text followed by \<open>name\<close>.  The session is left as
  it was.
\<close>

theorem request_not_implemented:
  assumes "tag \<noteq> ''protocol''" "tag \<noteq> ''version''"
    and "list_all (\<lambda>name. \<not> sublist name tag) (drop 2 request_names)"
    and "name \<in> set request_names" "\<not> has_method name"
  shows "request p uuid session (JStr tag)
           = (Inl (PyException (''Request not implemented: '' @ tag)), session)
       \<and> request p uuid session (JDict [(name, body)])
           = (Inl (PyException (''Request not implemented: '' @ name)), session)"
proof
  from assms(3)
  have "\<forall>name \<in> set (drop 2 request_names). py_contains name (JStr tag) = Inr False"
    by (simp add: list_all_iff)
  with assms(1,2) show "request p uuid session (JStr tag)
           = (Inl (PyException (''Request not implemented: '' @ tag)), session)"
    by (simp add: request_unknown not_implemented_def)
next
  from assms(4) have "name \<in> set request_names" .
  then consider "name = ''protocol''" | "name = ''version''" | "name = ''load_inputs''"
    | "name = ''unload_inputs''" | "name = ''load_config''" | "name = ''unload_config''"
    | "name = ''show_queries''" | "name = ''run_queries''" | "name = ''get_tables''"
    | "name = ''get_fields''"
    unfolding request_names_def by fastforce
  then show "request p uuid session (JDict [(name, body)])
           = (Inl (PyException (''Request not implemented: '' @ name)), session)"
  proof cases
    case 1 with assms(5) show ?thesis by (simp add: has_method_simps)
  next
    case 2 with assms(5) show ?thesis by (simp add: has_method_simps)
  next
    case 3 with assms(5) show ?thesis by (simp add: has_method_simps)
  next
    case 4 then show ?thesis by (simp only: request_unload_inputs not_implemented_def)
  next
    case 5 with assms(5) show ?thesis by (simp add: has_method_simps)
  next
    case 6 then show ?thesis by (simp only: request_unload_config not_implemented_def)
  next
    case 7 with assms(5) show ?thesis by (simp add: has_method_simps)
  next
    case 8 with assms(5) show ?thesis by (simp add: has_method_simps)
  next
    case 9 then show ?thesis by (simp only: request_get_tables not_implemented_def)
  next
    case 10 then show ?thesis by (simp only: request_get_fields not_implemented_def)
  qed
qed

theorem request_not_implemented_witness:
  "''frobnicate'' \<noteq> ''protocol'' \<and> ''frobnicate'' \<noteq> ''version''
   \<and> list_all (\<lambda>name. \<not> sublist name ''frobnicate'') (drop 2 request_names)
   \<and> ''get_fields'' \<in> set request_names \<and> \<not> has_method ''get_fields''
   \<and> request TestProtocol ''u'' ProtocolSession (JStr ''frobnicate'')
       = (Inl (PyException (''Request not implemented: '' @ ''frobnicate'')), ProtocolSession)
   \<and> request TestProtocol ''u'' ProtocolSession (JDict [(''get_fields'', JNull)])
       = (Inl (PyException (''Request not implemented: '' @ ''get_fields'')), ProtocolSession)"
proof -
  have h1: "''frobnicate'' \<noteq> ''protocol''" and h2: "''frobnicate'' \<noteq> ''version''"
    by simp_all
  note h3 = frobnicate_contains_no_name
  have h4: "''get_fields'' \<in> set request_names" by (simp add: request_names_def)
  have h5: "\<not> has_method ''get_fields''" by (rule has_method_simps)
  note r = request_not_implemented [OF h1 h2 h3 h4 h5, of TestProtocol "''u''" ProtocolSession JNull]
  show ?thesis
    by (intro conjI h1 h2 h3 h4 h5 r [THEN conjunct1] r [THEN conjunct2])
qed

section \<open>References and handles of a session\<close>

lemma handle_of_Cons:
  "handle_of loader ((r, raw) # loads) =
     (handle_of loader loads)(r := (case loader raw of Inl e \<Rightarrow> None | Inr h \<Rightarrow> Some h))"
  by (auto simp: handle_of_def fun_eq_iff)

lemma registry_inv_step:
  assumes "registry_inv p (session, input_loads, config_loads)"
    and "apply_call p c session = (res, session')"
  shows "registry_inv p
           (session',
            (case c of
               CallLoadInputs uuid raw \<Rightarrow> returned_load res raw @ input_loads
             | _ \<Rightarrow> input_loads),
            (case c of
               CallLoadConfig uuid raw \<Rightarrow> returned_load res raw @ config_loads
             | _ \<Rightarrow> config_loads))"
proof (cases c)
  case CallProtocol
  with assms show ?thesis by (simp add: protocol_def)
next
  case CallVersion
  with assms show ?thesis by (simp add: version_def)
next
  case (CallLoadInputs uuid raw)
  show ?thesis
  proof (cases "plugin_load_inputs p raw")
    case (Inl e)
    with assms CallLoadInputs show ?thesis by (auto simp: load_inputs_def)
  next
    case (Inr h)
    with assms(2) CallLoadInputs
    have res: "res = Inr (JStr uuid)"
      and s': "session' = session\<lparr>inputs := (inputs session)(uuid \<mapsto> h)\<rparr>"
      by (auto simp: load_inputs_def)
    from assms(1) Inr show ?thesis
      unfolding registry_inv_def CallLoadInputs res s' by (simp add: handle_of_Cons)
  qed
next
  case (CallLoadConfig uuid raw)
  show ?thesis
  proof (cases "plugin_load_config p raw")
    case (Inl e)
    with assms CallLoadConfig show ?thesis by (auto simp: load_config_def)
  next
    case (Inr h)
    with assms(2) CallLoadConfig
    have res: "res = Inr (JStr uuid)"
      and s': "session' = session\<lparr>configs := (configs session)(uuid \<mapsto> h)\<rparr>"
      by (auto simp: load_config_def)
    from assms(1) Inr show ?thesis
      unfolding registry_inv_def CallLoadConfig res s' by (simp add: handle_of_Cons)
  qed
next
  case (CallShowQueries qry)
  with assms show ?thesis by (simp add: show_queries_def)
next
  case (CallRunQueries qry input_ref config_ref)
  with assms show ?thesis
    by (auto simp: run_queries_def split: sum.splits)
qed

lemma registry_inv_serve:
  "registry_inv p state \<Longrightarrow> registry_inv p (serve p calls state)"
proof (induction calls arbitrary: state)
  case Nil
  then show ?case by simp
next
  case (Cons c calls)
  obtain session input_loads config_loads where st: "state = (session, input_loads, config_loads)"
    by (cases state) auto
  obtain res session' where step: "apply_call p c session = (res, session')"
    by (cases "apply_call p c session") auto
  from registry_inv_step [OF Cons.prems [unfolded st] step]
  show ?case unfolding st by (simp add: step Cons.IH)
qed

lemma registry_inv_initial: "registry_inv p (ProtocolSession, [], [])"
  by (simp add: registry_inv_def ProtocolSession_def handle_of_def fun_eq_iff)

lemma loaded_handle:
  assumes "list_all (\<lambda>l. case loader (snd l) of Inl e \<Rightarrow> False | Inr h \<Rightarrow> True) loads"
    and "map_of loads r = Some raw"
  shows "\<exists>h. loader raw = Inr h \<and> handle_of loader loads r = Some h"
proof -
  from assms(2) have "(r, raw) \<in> set loads" by (rule map_of_SomeD)
  with assms(1) have "case loader (snd (r, raw)) of Inl e \<Rightarrow> False | Inr h \<Rightarrow> True"
    unfolding list_all_iff by (rule bspec)
  then obtain h where "loader raw = Inr h"
    by (cases "loader raw") simp_all
  with assms(2) show ?thesis by (simp add: handle_of_def)
qed

text \<open>
  C8 (as stated, refuted): \<open>run_queries\<close> with references that \<open>load_inputs\<close> and
  \<open>load_config\<close> have returned need not succeed.  The service only delegates: with a
  plugin whose \<open>run_queries\<close> raises (as \<open>UnityProtocol.run_queries\<close> does when the
  login is answered with status 404), the call raises the plugin's exception.
\<close>

theorem run_queries_raises_with_loaded_refs:
  "serve refusing_plugin
       [CallLoadInputs ''r1'' (JStr ''in''), CallLoadConfig ''r2'' (JStr ''cfg'')]
       (ProtocolSession, [], [])
     = (\<lparr>inputs = [''r1'' \<mapsto> JStr ''in''], configs = [''r2'' \<mapsto> JStr ''cfg'']\<rparr>,
        [(''r1'', JStr ''in'')], [(''r2'', JStr ''cfg'')])
   \<and> run_queries refusing_plugin
         \<lparr>inputs = [''r1'' \<mapsto> JStr ''in''], configs = [''r2'' \<mapsto> JStr ''cfg'']\<rparr>
         (JDict [(''Disks'', JList [JStr ''name''])]) (JStr ''r1'') (JStr ''r2'')
     = (Inl (ProtocolError ''HTTP Status 404 - Not Found''),
        \<lparr>inputs = [''r1'' \<mapsto> JStr ''in''], configs = [''r2'' \<mapsto> JStr ''cfg'']\<rparr>)"
  by (simp add: load_inputs_def load_config_def run_queries_def refusing_plugin_def
        ProtocolSession_def)

text \<open>
  C8 (amended): in a session reached by any calls of the service's methods, \<open>run_queries\<close>
  with a reference returned by \<open>load_inputs\<close> and a reference returned by \<open>load_config\<close>
  resolves both: each handle is the value that the plugin's loader returned for the raw
  value of the latest load that returned the reference.  It calls the plugin's
  \<open>run_queries\<close> with these handles and its outcome is the plugin's outcome: the result
  when the plugin returns one, the plugin's exception when it raises.  With a config
  reference that \<open>load_config\<close> never returned it raises \<open>KeyError\<close> for the reference
  that is missing (for the input reference, looked up first, when no load returned that
  one either).  The session is left as it was.
\<close>

theorem run_queries_resolves_refs:
  assumes "serve p calls (ProtocolSession, [], []) = (session, input_loads, config_loads)"
  shows "(map_of input_loads input_ref = Some raw_inputs \<longrightarrow>
          map_of config_loads config_ref = Some raw_config \<longrightarrow>
            (\<exists>ih ch.
               plugin_load_inputs p raw_inputs = Inr ih \<and> plugin_load_config p raw_config = Inr ch
               \<and> inputs session input_ref = Some ih \<and> configs session config_ref = Some ch
               \<and> run_queries p session qry (JStr input_ref) (JStr config_ref)
                   = (plugin_run_queries p qry ih ch, session)))
       \<and> (map_of config_loads config_ref = None \<longrightarrow>
            run_queries p session qry (JStr input_ref) (JStr config_ref)
              = (Inl (KeyError (JStr (if map_of input_loads input_ref = None
                                      then input_ref else config_ref))),
                 session))"
proof -
  from registry_inv_serve [OF registry_inv_initial, of p calls] assms
  have inv: "registry_inv p (session, input_loads, config_loads)" by simp
  then have di: "inputs session = handle_of (plugin_load_inputs p) input_loads"
    and dc: "configs session = handle_of (plugin_load_config p) config_loads"
    and li: "list_all (\<lambda>l. case plugin_load_inputs p (snd l) of Inl e \<Rightarrow> False | Inr h \<Rightarrow> True)
               input_loads"
    and lc: "list_all (\<lambda>l. case plugin_load_config p (snd l) of Inl e \<Rightarrow> False | Inr h \<Rightarrow> True)
               config_loads"
    by (simp_all add: registry_inv_def)
  show ?thesis
  proof (intro conjI impI)
    assume i: "map_of input_loads input_ref = Some raw_inputs"
      and c: "map_of config_loads config_ref = Some raw_config"
    from loaded_handle [OF li i] obtain ih where
      ih: "plugin_load_inputs p raw_inputs = Inr ih" "inputs session input_ref = Some ih"
      by (auto simp: di)
    from loaded_handle [OF lc c] obtain ch where
      ch: "plugin_load_config p raw_config = Inr ch" "configs session config_ref = Some ch"
      by (auto simp: dc)
    from ih ch show "\<exists>ih ch.
               plugin_load_inputs p raw_inputs = Inr ih \<and> plugin_load_config p raw_config = Inr ch
               \<and> inputs session input_ref = Some ih \<and> configs session config_ref = Some ch
               \<and> run_queries p session qry (JStr input_ref) (JStr config_ref)
                   = (plugin_run_queries p qry ih ch, session)"
      by (auto simp: run_queries_def)
  next
    assume "map_of config_loads config_ref = None"
    then have none: "configs session config_ref = None" by (simp add: dc handle_of_def)
    show "run_queries p session qry (JStr input_ref) (JStr config_ref)
              = (Inl (KeyError (JStr (if map_of input_loads input_ref = None
                                      then input_ref else config_ref))),
                 session)"
    proof (cases "map_of input_loads input_ref")
      case None
      then have "inputs session input_ref = None" by (simp add: di handle_of_def)
      with None show ?thesis by (simp add: run_queries_def)
    next
      case (Some raw)
      from loaded_handle [OF li Some] obtain ih where "inputs session input_ref = Some ih"
        by (auto simp: di)
      with Some none show ?thesis by (simp add: run_queries_def)
    qed
  qed
qed

lemma test_history:
  "serve TestProtocol [CallLoadInputs ''r1'' (JStr ''in''), CallLoadConfig ''r2'' (JStr ''cfg'')]
     (ProtocolSession, [], [])
   = (\<lparr>inputs = [''r1'' \<mapsto> JStr ''in''], configs = [''r2'' \<mapsto> JStr ''cfg'']\<rparr>,
      [(''r1'', JStr ''in'')], [(''r2'', JStr ''cfg'')])"
  by (simp add: load_inputs_def load_config_def TestProtocol_def ProtocolSession_def)

lemma test_query:
  "test_run_queries (JDict [(''Disks'', JList [JStr ''name''])]) ih ch
   = Inr (JDict [(''test_Disks'',
                  JDict [(''Ok'',
                    JDict [(''value'',
                            JList [JDict [(''test_name'',
                                           JDict [(''Ok'', JDict [(''unicodestring'', JStr ''test'')])])]]),
                           (''warnings'', JList [])])])])"
  by (simp add: test_run_queries_def test_name_def)

theorem run_queries_resolves_refs_witness:
  "serve TestProtocol [CallLoadInputs ''r1'' (JStr ''in''), CallLoadConfig ''r2'' (JStr ''cfg'')]
     (ProtocolSession, [], [])
   = (\<lparr>inputs = [''r1'' \<mapsto> JStr ''in''], configs = [''r2'' \<mapsto> JStr ''cfg'']\<rparr>,
      [(''r1'', JStr ''in'')], [(''r2'', JStr ''cfg'')])
   \<and> map_of [(''r1'', JStr ''in'')] ''r1'' = Some (JStr ''in'')
   \<and> map_of [(''r2'', JStr ''cfg'')] ''r2'' = Some (JStr ''cfg'')
   \<and> map_of [(''r2'', JStr ''cfg'')] ''zz'' = None
   \<and> fst (run_queries TestProtocol
            \<lparr>inputs = [''r1'' \<mapsto> JStr ''in''], configs = [''r2'' \<mapsto> JStr ''cfg'']\<rparr>
            (JDict [(''Disks'', JList [JStr ''name''])]) (JStr ''r1'') (JStr ''r2''))
       = test_run_queries (JDict [(''Disks'', JList [JStr ''name''])]) (JStr ''in'') (JStr ''cfg'')
   \<and> fst (run_queries TestProtocol
            \<lparr>inputs = [''r1'' \<mapsto> JStr ''in''], configs = [''r2'' \<mapsto> JStr ''cfg'']\<rparr>
            (JDict [(''Disks'', JList [JStr ''name''])]) (JStr ''r1'') (JStr ''zz''))
       = Inl (KeyError (JStr ''zz''))"
proof -
  note r = run_queries_resolves_refs [OF test_history,
      where input_ref = "''r1''" and qry = "JDict [(''Disks'', JList [JStr ''name''])]"]
  have m: "map_of [(''r1'', JStr ''in'')] ''r1'' = Some (JStr ''in'')"
    "map_of [(''r2'', JStr ''cfg'')] ''r2'' = Some (JStr ''cfg'')"
    "map_of [(''r2'', JStr ''cfg'')] ''zz'' = None" by simp_all
  from r [where config_ref = "''r2''", THEN conjunct1, rule_format, OF m(1) m(2)]
  have 1: "fst (run_queries TestProtocol
            \<lparr>inputs = [''r1'' \<mapsto> JStr ''in''], configs = [''r2'' \<mapsto> JStr ''cfg'']\<rparr>
            (JDict [(''Disks'', JList [JStr ''name''])]) (JStr ''r1'') (JStr ''r2''))
       = test_run_queries (JDict [(''Disks'', JList [JStr ''name''])]) (JStr ''in'') (JStr ''cfg'')"
    by (auto simp: TestProtocol_def)
  from r [where config_ref = "''zz''", THEN conjunct2, rule_format, OF m(3)]
  have 2: "fst (run_queries TestProtocol
            \<lparr>inputs = [''r1'' \<mapsto> JStr ''in''], configs = [''r2'' \<mapsto> JStr ''cfg'']\<rparr>
            (JDict [(''Disks'', JList [JStr ''name''])]) (JStr ''r1'') (JStr ''zz''))
       = Inl (KeyError (JStr ''zz''))"
    by simp
  show ?thesis by (intro conjI test_history m 1 2)
qed

section \<open>The incremental aggregator\<close>

lemmas example_poll_simps =
  samples_accumulated_def accumulate_samples_def one_page_def stored_at_def sample_def
  initial_state_def old_timestamp_of_def falsy_timestamp_def newer_def add_sample_def Let_def

lemma scan_entries_count:
  "scan_entries ts_entry es st = Inr st' \<Longrightarrow> old_timestamp_of ts_entry = Some 0 \<Longrightarrow>
   count st \<le> 6 \<Longrightarrow> count st' \<le> 6"
proof (induction es arbitrary: st)
  case Nil
  then show ?case by simp
next
  case (Cons e es)
  from Cons.prems show ?case
    by (auto simp: Let_def split: if_splits option.splits dest!: Cons.IH)
qed

lemma while_not_done_count:
  assumes "while_not_done api path ts_entry page st = Some r"
  shows "old_timestamp_of ts_entry = Some 0 \<longrightarrow> count st \<le> 6 \<longrightarrow>
   (\<forall>st'. r = Inr st' \<longrightarrow> count st' \<le> 6)"
proof (rule while_not_done.raw_induct
    [where P = "\<lambda>api path ts_entry page st r. old_timestamp_of ts_entry = Some 0 \<longrightarrow>
       count st \<le> 6 \<longrightarrow> (\<forall>st'. r = Inr st' \<longrightarrow> count st' \<le> 6)", OF _ assms])
  fix f :: "api \<Rightarrow> string \<Rightarrow> ts_entry option \<Rightarrow> api_response \<Rightarrow> loop_state
              \<Rightarrow> (exn + loop_state) option"
    and api path ts_entry page st r
  assume IH: "\<And>api path ts_entry page st r. f api path ts_entry page st = Some r \<Longrightarrow>
      old_timestamp_of ts_entry = Some 0 \<longrightarrow> count st \<le> 6 \<longrightarrow>
      (\<forall>st'. r = Inr st' \<longrightarrow> count st' \<le> 6)"
    and body: "(case scan_entries ts_entry (entries page) st of
        Inl e \<Rightarrow> Some (Inl e)
      | Inr st1 \<Rightarrow>
          if loop_done st1 then Some (Inr st1)
          else (case follow_links api path (links page) (False, page) of
                  Inl e \<Rightarrow> Some (Inl e)
                | Inr (new_page, next_response) \<Rightarrow>
                    if \<not> new_page then Some (Inr (st1\<lparr>loop_done := True\<rparr>))
                    else f api path ts_entry next_response st1)) = Some r"
  show "old_timestamp_of ts_entry = Some 0 \<longrightarrow> count st \<le> 6 \<longrightarrow>
      (\<forall>st'. r = Inr st' \<longrightarrow> count st' \<le> 6)"
  proof (intro impI allI)
    fix st'
    assume old: "old_timestamp_of ts_entry = Some 0" and c: "count st \<le> 6" and r: "r = Inr st'"
    show "count st' \<le> 6"
    proof (cases "scan_entries ts_entry (entries page) st")
      case (Inl e)
      with body r show ?thesis by simp
    next
      case (Inr st1)
      from scan_entries_count [OF Inr old c] have c1: "count st1 \<le> 6" .
      show ?thesis
      proof (cases "loop_done st1")
        case True
        with body Inr r c1 show ?thesis by simp
      next
        case False
        show ?thesis
        proof (cases "follow_links api path (links page) (False, page)")
          case (Inl e)
          with body Inr False r show ?thesis by simp
        next
          case (Inr nxt)
          obtain new_page next_response where nxt: "nxt = (new_page, next_response)"
            by (cases nxt) auto
          show ?thesis
          proof (cases new_page)
            case True
            with body \<open>scan_entries ts_entry (entries page) st = Inr st1\<close> False Inr nxt
            have "f api path ts_entry next_response st1 = Some r" by simp
            from IH [OF this] old c1 r show ?thesis by simp
          next
            case False
            with body \<open>scan_entries ts_entry (entries page) st = Inr st1\<close> \<open>\<not> loop_done st1\<close>
              Inr nxt r c1
            show ?thesis by auto
          qed
        qed
      qed
    qed
  qed
qed

text \<open>
  C1 (as stated, refuted): with a stored timestamp of 100 for the path and seven newer
  entries upstream, seven samples are accumulated.  The test of the loop is
  \<open>count <= 5 or old_timestamp != 0\<close>: the bound applies when the stored timestamp is 0.
\<close>

theorem seven_samples_with_prior_state:
  "old_timestamp_of (stored_at 100 [] ''p'') = Some 100
   \<and> samples_accumulated (one_page (map sample [107, 106, 105, 104, 103, 102, 101]))
        (stored_at 100 []) ''p'' = Some (Inr 7)"
  by (simp add: example_poll_simps
        while_not_done.simps [of _ _ _ "\<lparr>entries = _, links = []\<rparr>"])

lemma scan_entries_exact:
  assumes "old_timestamp_of ts_entry \<noteq> Some 0"
    and "new_timestamp st = Some t" and "t \<noteq> 0" and "Some t \<noteq> old_timestamp_of ts_entry"
  shows "\<exists>st'. scan_entries ts_entry es st = Inr st'
           \<and> count st' = count st
                + int (length (filter (new_sample (old_timestamp_of ts_entry)) es))
           \<and> loop_done st' = (loop_done st \<or> \<not> list_all (new_sample (old_timestamp_of ts_entry)) es)
           \<and> new_timestamp st' = Some t"
  using assms(2)
proof (induction es arbitrary: st)
  case Nil
  then show ?case by simp
next
  case (Cons e es)
  let ?old = "old_timestamp_of ts_entry"
  have nf: "\<not> falsy_timestamp (new_timestamp st)"
    using Cons.prems assms(3) by (simp add: falsy_timestamp_def)
  have ne: "new_timestamp st \<noteq> ?old" using Cons.prems assms(4) by simp
  show ?case
  proof (cases "new_sample ?old e")
    case True
    let ?st2 = "st\<lparr>count := count st + 1,
                  timeseries := add_values (case content_values e of None \<Rightarrow> [] | Some vs \<Rightarrow> vs)
                                  (timeseries st)\<rparr>"
    from True have step: "scan_entries ts_entry (e # es) st = scan_entries ts_entry es ?st2"
      using nf ne assms(1) by (simp add: Let_def new_sample_def)
    have "new_timestamp ?st2 = Some t" using Cons.prems by simp
    from Cons.IH [OF this] obtain st' where
      "scan_entries ts_entry es ?st2 = Inr st'"
      "count st' = count ?st2 + int (length (filter (new_sample ?old) es))"
      "loop_done st' = (loop_done ?st2 \<or> \<not> list_all (new_sample ?old) es)"
      "new_timestamp st' = Some t" by blast
    with True show ?thesis unfolding step by simp
  next
    case False
    let ?st2 = "st\<lparr>loop_done := True\<rparr>"
    from False have step: "scan_entries ts_entry (e # es) st = scan_entries ts_entry es ?st2"
      using nf ne by (auto simp: Let_def new_sample_def)
    have "new_timestamp ?st2 = Some t" using Cons.prems by simp
    from Cons.IH [OF this] obtain st' where
      "scan_entries ts_entry es ?st2 = Inr st'"
      "count st' = count ?st2 + int (length (filter (new_sample ?old) es))"
      "loop_done st' = (loop_done ?st2 \<or> \<not> list_all (new_sample ?old) es)"
      "new_timestamp st' = Some t" by blast
    with False show ?thesis unfolding step by simp
  qed
qed

lemma scan_entries_exact_first:
  assumes "old_timestamp_of ts_entry \<noteq> Some 0"
    and "falsy_timestamp (new_timestamp st)"
    and "content_timestamp e \<noteq> 0" and "Some (content_timestamp e) \<noteq> old_timestamp_of ts_entry"
  shows "\<exists>st'. scan_entries ts_entry (e # es) st = Inr st'
           \<and> count st' = count st
                + int (length (filter (new_sample (old_timestamp_of ts_entry)) (e # es)))
           \<and> loop_done st'
               = (loop_done st \<or> \<not> list_all (new_sample (old_timestamp_of ts_entry)) (e # es))
           \<and> new_timestamp st' = Some (content_timestamp e)"
proof -
  let ?old = "old_timestamp_of ts_entry"
  let ?st1 = "st\<lparr>new_timestamp := Some (content_timestamp e)\<rparr>"
  have same: "scan_entries ts_entry (e # es) st = scan_entries ts_entry (e # es) ?st1"
    using assms(2,3) by (simp add: Let_def falsy_timestamp_def)
  have "new_timestamp ?st1 = Some (content_timestamp e)" by simp
  from scan_entries_exact [OF assms(1) this assms(3,4), of "e # es"]
  show ?thesis unfolding same by simp
qed

lemma while_not_done_walk:
  assumes old: "old_timestamp_of ts_entry \<noteq> Some 0"
    and t: "t \<noteq> 0" "Some t \<noteq> old_timestamp_of ts_entry"
  shows "pages_walked api path (old_timestamp_of ts_entry) (page # pages) \<Longrightarrow>
         scan_entries ts_entry (entries page) st = Inr st1 \<Longrightarrow>
         count st1 = c + int (length (filter (new_sample (old_timestamp_of ts_entry)) (entries page))) \<Longrightarrow>
         loop_done st1 = (\<not> list_all (new_sample (old_timestamp_of ts_entry)) (entries page)) \<Longrightarrow>
         new_timestamp st1 = Some t \<Longrightarrow>
         \<exists>st'. while_not_done api path ts_entry page st = Some (Inr st')
           \<and> count st' = c + int (length (filter (new_sample (old_timestamp_of ts_entry))
                                            (concat (map entries (page # pages)))))"
proof (induction pages arbitrary: page st st1 c)
  case Nil
  let ?old = "old_timestamp_of ts_entry"
  show ?case
  proof (cases "list_all (new_sample ?old) (entries page)")
    case True
    with Nil have fl: "follow_links api path (links page) (False, page) = Inr (False, page)"
      and nd: "\<not> loop_done st1" by simp_all
    have "while_not_done api path ts_entry page st = Some (Inr (st1\<lparr>loop_done := True\<rparr>))"
      by (subst while_not_done.simps) (simp add: Nil.prems(2) nd fl)
    with Nil.prems(3) show ?thesis by simp
  next
    case False
    with Nil have d: "loop_done st1" by simp
    have "while_not_done api path ts_entry page st = Some (Inr st1)"
      by (subst while_not_done.simps) (simp add: Nil.prems(2) d)
    with Nil.prems(3) show ?thesis by simp
  qed
next
  case (Cons next_page pages)
  let ?old = "old_timestamp_of ts_entry"
  from Cons.prems(1) have all: "list_all (new_sample ?old) (entries page)"
    and fl: "follow_links api path (links page) (False, page) = Inr (True, next_page)"
    and rest: "pages_walked api path ?old (next_page # pages)" by simp_all
  from all Cons.prems(4) have nd: "\<not> loop_done st1" by simp
  have step: "while_not_done api path ts_entry page st
                = while_not_done api path ts_entry next_page st1"
    by (subst while_not_done.simps) (simp add: Cons.prems(2) nd fl)
  from scan_entries_exact [OF old Cons.prems(5) t, of "entries next_page"] nd
  obtain st2 where s2: "scan_entries ts_entry (entries next_page) st1 = Inr st2"
    and c2: "count st2 = count st1 + int (length (filter (new_sample ?old) (entries next_page)))"
    and d2: "loop_done st2 = (\<not> list_all (new_sample ?old) (entries next_page))"
    and n2: "new_timestamp st2 = Some t" by auto
  from Cons.IH [OF rest s2 c2 d2 n2] obtain st' where
    "while_not_done api path ts_entry next_page st1 = Some (Inr st')"
    "count st' = count st1 + int (length (filter (new_sample ?old)
                                            (concat (map entries (next_page # pages)))))"
    by blast
  with Cons.prems(3) show ?case unfolding step by simp
qed

lemma samples_of_pages_walked:
  assumes "old_timestamp_of (stored path) \<noteq> Some 0"
    and "api (metric_url path []) = Inr page" and "entries page = e # es"
    and "content_timestamp e \<noteq> 0"
    and "Some (content_timestamp e) \<noteq> old_timestamp_of (stored path)"
    and "pages_walked api path (old_timestamp_of (stored path)) (page # pages)"
  shows "samples_accumulated api stored path
           = Some (Inr (int (length (filter (new_sample (old_timestamp_of (stored path)))
                                       (concat (map entries (page # pages)))))))"
proof -
  let ?old = "old_timestamp_of (stored path)"
  from scan_entries_exact_first [OF assms(1) _ assms(4,5), of initial_state es]
  obtain st1 where s1: "scan_entries (stored path) (entries page) initial_state = Inr st1"
    and c1: "count st1 = 0 + int (length (filter (new_sample ?old) (entries page)))"
    and d1: "loop_done st1 = (\<not> list_all (new_sample ?old) (entries page))"
    and n1: "new_timestamp st1 = Some (content_timestamp e)"
    unfolding assms(3) by (auto simp: initial_state_def falsy_timestamp_def)
  from while_not_done_walk [OF assms(1,4,5,6) s1 c1 d1 n1] obtain st' where
    "while_not_done api path (stored path) page initial_state = Some (Inr st')"
    "count st' = 0 + int (length (filter (new_sample ?old) (concat (map entries (page # pages)))))"
    by blast
  then show ?thesis
    by (simp add: samples_accumulated_def accumulate_samples_def assms(2))
qed

lemma samples_short_circuit:
  assumes "stored path = Some ts_entry" and "timestamp ts_entry = Some (content_timestamp e)"
    and "api (metric_url path []) = Inr page" and "entries page = e # es"
  shows "samples_accumulated api stored path = Some (Inr 0)"
proof -
  let ?st = "initial_state\<lparr>new_timestamp := Some (content_timestamp e),
               loop_result := result ts_entry, loop_done := True\<rparr>"
  have scan: "scan_entries (Some ts_entry) (e # es) initial_state = Inr ?st"
    using assms(2)
    by (simp add: Let_def initial_state_def falsy_timestamp_def old_timestamp_of_def)
  have "while_not_done api path (Some ts_entry) page initial_state = Some (Inr ?st)"
    by (subst while_not_done.simps) (simp add: assms(4) scan del: scan_entries.simps)
  then show ?thesis
    by (simp add: samples_accumulated_def accumulate_samples_def assms(1,3) initial_state_def)
qed

lemma metric_url_inject: "metric_url path a = metric_url path b \<longleftrightarrow> a = b"
  by (simp add: metric_url_def)

lemma two_pages_second: "two_pages es1 es2 (metric_url ''p'' ''&page=2'') = Inr (second_page es2)"
  by (simp add: two_pages_def metric_url_inject)

text \<open>
  C1 (amended): when the timestamp kept for the path is 0 (there is no state for the path,
  or the stored timestamp is 0), at most 6 samples are accumulated into the running sums
  before the rows are emitted.  When it is not 0 there is no bound: if the first entry of
  the first page (the newest) has a timestamp other than 0 and other than the stored one,
  then every entry that is newer than the stored timestamp and has values is accumulated,
  on every page that the loop goes through, however many there are.  The other entries
  are passed over, and the loop ends with the first page that has one, or that has no
  next link.  If there is state for the path and the first entry of the first page has
  the stored timestamp, nothing is accumulated.
\<close>

theorem six_sample_cap:
  "(old_timestamp_of (stored path) = Some 0 \<longrightarrow>
      samples_accumulated api stored path = Some (Inr n) \<longrightarrow> n \<le> 6)
   \<and> (old_timestamp_of (stored path) \<noteq> Some 0 \<longrightarrow>
      api (metric_url path []) = Inr page \<longrightarrow> entries page = e # es \<longrightarrow>
      content_timestamp e \<noteq> 0 \<longrightarrow>
      Some (content_timestamp e) \<noteq> old_timestamp_of (stored path) \<longrightarrow>
      pages_walked api path (old_timestamp_of (stored path)) (page # pages) \<longrightarrow>
      samples_accumulated api stored path
        = Some (Inr (int (length (filter (new_sample (old_timestamp_of (stored path)))
                                    (concat (map entries (page # pages))))))))
   \<and> (stored path = Some ts_entry \<longrightarrow> timestamp ts_entry = Some (content_timestamp e) \<longrightarrow>
      api (metric_url path []) = Inr page \<longrightarrow> entries page = e # es \<longrightarrow>
      samples_accumulated api stored path = Some (Inr 0))"
proof (intro conjI impI)
  assume old: "old_timestamp_of (stored path) = Some 0"
    and run: "samples_accumulated api stored path = Some (Inr n)"
  from run obtain st where
    acc: "accumulate_samples api stored path = Some (Inr st)" and n: "n = count st"
    by (auto simp: samples_accumulated_def split: option.splits sum.splits)
  from acc obtain page where
    w: "while_not_done api path (stored path) page initial_state = Some (Inr st)"
    by (auto simp: accumulate_samples_def split: sum.splits)
  from while_not_done_count [OF w] old have "count st \<le> 6"
    by (simp add: initial_state_def)
  with n show "n \<le> 6" by simp
next
  assume "old_timestamp_of (stored path) \<noteq> Some 0"
    and "api (metric_url path []) = Inr page" and "entries page = e # es"
    and "content_timestamp e \<noteq> 0"
    and "Some (content_timestamp e) \<noteq> old_timestamp_of (stored path)"
    and "pages_walked api path (old_timestamp_of (stored path)) (page # pages)"
  then show "samples_accumulated api stored path
        = Some (Inr (int (length (filter (new_sample (old_timestamp_of (stored path)))
                                    (concat (map entries (page # pages)))))))"
    by (rule samples_of_pages_walked)
next
  assume "stored path = Some ts_entry" and "timestamp ts_entry = Some (content_timestamp e)"
    and "api (metric_url path []) = Inr page" and "entries page = e # es"
  then show "samples_accumulated api stored path = Some (Inr 0)"
    by (rule samples_short_circuit)
qed

theorem six_sample_cap_witness:
  "old_timestamp_of (Map.empty ''p'') = Some 0
   \<and> samples_accumulated (one_page (map sample [108, 107, 106, 105, 104, 103, 102, 101]))
        Map.empty ''p'' = Some (Inr 6)
   \<and> (6::int) \<le> 6
   \<and> old_timestamp_of (stored_at 100 [] ''p'') \<noteq> Some 0
   \<and> two_pages [sample 107, sample 106] [sample 105, no_values 104, sample 103]
        (metric_url ''p'' []) = Inr (first_page [sample 107, sample 106])
   \<and> entries (first_page [sample 107, sample 106]) = [sample 107, sample 106]
   \<and> content_timestamp (sample 107) \<noteq> 0
   \<and> Some (content_timestamp (sample 107)) \<noteq> old_timestamp_of (stored_at 100 [] ''p'')
   \<and> pages_walked (two_pages [sample 107, sample 106] [sample 105, no_values 104, sample 103])
        ''p'' (old_timestamp_of (stored_at 100 [] ''p''))
        [first_page [sample 107, sample 106], second_page [sample 105, no_values 104, sample 103]]
   \<and> samples_accumulated (two_pages [sample 107, sample 106] [sample 105, no_values 104, sample 103])
        (stored_at 100 []) ''p'' = Some (Inr 4)
   \<and> stored_at 100 [] ''p'' = Some \<lparr>timestamp = Some 100, result = []\<rparr>
   \<and> timestamp \<lparr>timestamp = Some 100, result = []\<rparr> = Some (content_timestamp (sample 100))
   \<and> one_page [sample 100, sample 105, sample 104] (metric_url ''p'' [])
       = Inr \<lparr>entries = [sample 100, sample 105, sample 104], links = []\<rparr>
   \<and> samples_accumulated (one_page [sample 100, sample 105, sample 104]) (stored_at 100 []) ''p''
       = Some (Inr 0)"
proof -
  let ?api = "two_pages [sample 107, sample 106] [sample 105, no_values 104, sample 103]"
  let ?old = "old_timestamp_of (stored_at 100 [] ''p'')"
  have old: "old_timestamp_of (Map.empty ''p'') = Some 0"
    by (simp add: old_timestamp_of_def)
  have run: "samples_accumulated (one_page (map sample [108, 107, 106, 105, 104, 103, 102, 101]))
        Map.empty ''p'' = Some (Inr 6)"
    by (simp add: example_poll_simps
          while_not_done.simps [of _ _ _ "\<lparr>entries = _, links = []\<rparr>"])
  have six: "(6::int) \<le> 6"
    using six_sample_cap [where stored = Map.empty and path = "''p''" and n = 6,
        THEN conjunct1, rule_format, OF old run] .
  have old': "?old \<noteq> Some 0"
    by (simp add: old_timestamp_of_def stored_at_def)
  have old100: "?old = Some 100"
    by (simp add: old_timestamp_of_def stored_at_def)
  have page: "?api (metric_url ''p'' []) = Inr (first_page [sample 107, sample 106])"
    by (simp add: two_pages_def)
  have es: "entries (first_page [sample 107, sample 106]) = sample 107 # [sample 106]"
    by (simp add: first_page_def)
  have ne: "content_timestamp (sample 107) \<noteq> 0" by (simp add: sample_def)
  have ne': "Some (content_timestamp (sample 107)) \<noteq> ?old"
    by (simp add: old100 sample_def)
  have walk: "pages_walked ?api ''p'' ?old
        [first_page [sample 107, sample 106], second_page [sample 105, no_values 104, sample 103]]"
    unfolding old100
    by (simp add: two_pages_second first_page_def new_sample_def newer_def sample_def
          no_values_def)
       (simp add: second_page_def)
  have four: "samples_accumulated ?api (stored_at 100 []) ''p'' = Some (Inr 4)"
    using six_sample_cap [where stored = "stored_at 100 []" and path = "''p''" and api = ?api,
        THEN conjunct2, THEN conjunct1, rule_format, OF old' page es ne ne' walk]
    unfolding old100
    by (simp add: first_page_def second_page_def new_sample_def newer_def sample_def
          no_values_def)
  have st: "stored_at 100 [] ''p'' = Some \<lparr>timestamp = Some 100, result = []\<rparr>"
    by (simp add: stored_at_def)
  have ts: "timestamp \<lparr>timestamp = Some 100, result = []\<rparr> = Some (content_timestamp (sample 100))"
    by (simp add: sample_def)
  have page1: "one_page [sample 100, sample 105, sample 104] (metric_url ''p'' [])
       = Inr \<lparr>entries = [sample 100, sample 105, sample 104], links = []\<rparr>"
    by (simp add: one_page_def)
  have es1: "entries \<lparr>entries = [sample 100, sample 105, sample 104], links = []\<rparr>
               = sample 100 # [sample 105, sample 104]" by simp
  have zero: "samples_accumulated (one_page [sample 100, sample 105, sample 104])
                (stored_at 100 []) ''p'' = Some (Inr 0)"
    using six_sample_cap [where stored = "stored_at 100 []" and path = "''p''"
        and api = "one_page [sample 100, sample 105, sample 104]",
        THEN conjunct2, THEN conjunct2, rule_format, OF st ts page1 es1] .
  show ?thesis
    by (intro conjI old run six old' page es [simplified] ne ne' walk four st ts page1 zero)
qed

lemma scan_entries_new_timestamp:
  "scan_entries ts_entry es st = Inr st' \<Longrightarrow> new_timestamp st = Some t \<Longrightarrow> t \<noteq> 0 \<Longrightarrow>
   new_timestamp st' = Some t"
proof (induction es arbitrary: st)
  case Nil
  then show ?case by simp
next
  case (Cons e es)
  from Cons.prems show ?case
    by (auto simp: Let_def falsy_timestamp_def split: if_splits option.splits dest!: Cons.IH)
qed

lemma scan_entries_first:
  assumes "scan_entries ts_entry (e # es) st = Inr st'"
    and "falsy_timestamp (new_timestamp st)" and "content_timestamp e \<noteq> 0"
  shows "new_timestamp st' = Some (content_timestamp e)"
  using assms
  by (auto simp: Let_def split: if_splits option.splits
        dest!: scan_entries_new_timestamp [where t = "content_timestamp e"])

lemma while_not_done_new_timestamp:
  assumes "while_not_done api path ts_entry page st = Some r"
  shows "\<forall>t st'. new_timestamp st = Some t \<longrightarrow> t \<noteq> 0 \<longrightarrow> r = Inr st' \<longrightarrow>
           new_timestamp st' = Some t"
proof (rule while_not_done.raw_induct
    [where P = "\<lambda>api path ts_entry page st r. \<forall>t st'. new_timestamp st = Some t \<longrightarrow> t \<noteq> 0 \<longrightarrow>
       r = Inr st' \<longrightarrow> new_timestamp st' = Some t", OF _ assms])
  fix f :: "api \<Rightarrow> string \<Rightarrow> ts_entry option \<Rightarrow> api_response \<Rightarrow> loop_state
              \<Rightarrow> (exn + loop_state) option"
    and api path ts_entry page st r
  assume IH: "\<And>api path ts_entry page st r. f api path ts_entry page st = Some r \<Longrightarrow>
      \<forall>t st'. new_timestamp st = Some t \<longrightarrow> t \<noteq> 0 \<longrightarrow> r = Inr st' \<longrightarrow>
        new_timestamp st' = Some t"
    and body: "(case scan_entries ts_entry (entries page) st of
        Inl e \<Rightarrow> Some (Inl e)
      | Inr st1 \<Rightarrow>
          if loop_done st1 then Some (Inr st1)
          else (case follow_links api path (links page) (False, page) of
                  Inl e \<Rightarrow> Some (Inl e)
                | Inr (new_page, next_response) \<Rightarrow>
                    if \<not> new_page then Some (Inr (st1\<lparr>loop_done := True\<rparr>))
                    else f api path ts_entry next_response st1)) = Some r"
  show "\<forall>t st'. new_timestamp st = Some t \<longrightarrow> t \<noteq> 0 \<longrightarrow> r = Inr st' \<longrightarrow>
          new_timestamp st' = Some t"
  proof (intro impI allI)
    fix t st'
    assume nt: "new_timestamp st = Some t" and t: "t \<noteq> 0" and r: "r = Inr st'"
    show "new_timestamp st' = Some t"
    proof (cases "scan_entries ts_entry (entries page) st")
      case (Inl e)
      with body r show ?thesis by simp
    next
      case (Inr st1)
      from scan_entries_new_timestamp [OF Inr nt t] have n1: "new_timestamp st1 = Some t" .
      show ?thesis
      proof (cases "loop_done st1")
        case True
        with body Inr r n1 show ?thesis by simp
      next
        case False
        show ?thesis
        proof (cases "follow_links api path (links page) (False, page)")
          case (Inl e)
          with body Inr False r show ?thesis by simp
        next
          case (Inr nxt)
          obtain new_page next_response where nxt: "nxt = (new_page, next_response)"
            by (cases nxt) auto
          show ?thesis
          proof (cases new_page)
            case True
            with body \<open>scan_entries ts_entry (entries page) st = Inr st1\<close> False Inr nxt
            have "f api path ts_entry next_response st1 = Some r" by simp
            from IH [OF this] n1 t r show ?thesis by simp
          next
            case False
            with body \<open>scan_entries ts_entry (entries page) st = Inr st1\<close> \<open>\<not> loop_done st1\<close>
              Inr nxt r n1
            show ?thesis by auto
          qed
        qed
      qed
    qed
  qed
qed

lemma while_not_done_first_entry:
  assumes w: "while_not_done api path ts_entry page st = Some (Inr st')"
    and page: "entries page = e # es"
    and falsy: "falsy_timestamp (new_timestamp st)" and e: "content_timestamp e \<noteq> 0"
  shows "new_timestamp st' = Some (content_timestamp e)"
proof (cases "scan_entries ts_entry (entries page) st")
  case (Inl x)
  with w show ?thesis by (subst (asm) while_not_done.simps) simp
next
  case (Inr st1)
  from scan_entries_first [OF Inr [unfolded page] falsy e]
  have n1: "new_timestamp st1 = Some (content_timestamp e)" .
  show ?thesis
  proof (cases "loop_done st1")
    case True
    with w Inr n1 show ?thesis by (subst (asm) while_not_done.simps) simp
  next
    case False
    show ?thesis
    proof (cases "follow_links api path (links page) (False, page)")
      case (Inl x)
      with w \<open>scan_entries ts_entry (entries page) st = Inr st1\<close> False
      show ?thesis by (subst (asm) while_not_done.simps) simp
    next
      case (Inr nxt)
      obtain new_page next_response where nxt: "nxt = (new_page, next_response)"
        by (cases nxt) auto
      show ?thesis
      proof (cases new_page)
        case True
        with w \<open>scan_entries ts_entry (entries page) st = Inr st1\<close> False Inr nxt
        have "while_not_done api path ts_entry next_response st1 = Some (Inr st')"
          by (subst (asm) while_not_done.simps) simp
        from while_not_done_new_timestamp [OF this] n1 e show ?thesis by simp
      next
        case False
        with w \<open>scan_entries ts_entry (entries page) st = Inr st1\<close> \<open>\<not> loop_done st1\<close>
          Inr nxt n1
        show ?thesis by (subst (asm) while_not_done.simps) auto
      qed
    qed
  qed
qed

lemma stored_after_poll:
  assumes "get_historic_metric_value api stored path name parameters = Some (Inr (rows, stored'))"
    and "api (metric_url path []) = Inr page" and "entries page = e # es"
    and "content_timestamp e \<noteq> 0"
  shows "stored' = stored(path \<mapsto> \<lparr>timestamp = Some (content_timestamp e), result = rows\<rparr>)"
proof -
  from assms(1) obtain st where
    acc: "accumulate_samples api stored path = Some (Inr st)"
    and st': "stored' = stored(path \<mapsto> \<lparr>timestamp = new_timestamp st, result = rows\<rparr>)"
    by (auto simp: get_historic_metric_value_def split: option.splits sum.splits if_splits)
  from acc assms(2)
  have "while_not_done api path (stored path) page initial_state = Some (Inr st)"
    by (simp add: accumulate_samples_def)
  from while_not_done_first_entry [OF this assms(3) _ assms(4)]
  have "new_timestamp st = Some (content_timestamp e)"
    by (simp add: initial_state_def falsy_timestamp_def)
  with st' show ?thesis by simp
qed

lemma poll_short_circuit:
  assumes "stored path = Some ts_entry" and "timestamp ts_entry = Some (content_timestamp e)"
    and "api (metric_url path []) = Inr page" and "entries page = e # es"
  shows "get_historic_metric_value api stored path name parameters
           = Some (Inr (result ts_entry, stored))"
proof -
  let ?st = "initial_state\<lparr>new_timestamp := Some (content_timestamp e),
               loop_result := result ts_entry, loop_done := True\<rparr>"
  have scan: "scan_entries (Some ts_entry) (e # es) initial_state = Inr ?st"
    using assms(2)
    by (simp add: Let_def initial_state_def falsy_timestamp_def old_timestamp_of_def)
  have "while_not_done api path (Some ts_entry) page initial_state = Some (Inr ?st)"
    by (subst while_not_done.simps) (simp add: assms(4) scan del: scan_entries.simps)
  then have acc: "accumulate_samples api stored path = Some (Inr ?st)"
    by (simp add: accumulate_samples_def assms(1,3))
  have same: "stored(path \<mapsto> \<lparr>timestamp = Some (content_timestamp e), result = result ts_entry\<rparr>)
                = stored"
    using assms(1,2) by (intro map_upd_triv) (cases ts_entry, simp)
  have rows: "(if loop_result ?st = []
               then build_rows parameters name (count ?st) (timeseries ?st)
               else Inr (loop_result ?st)) = Inr (result ts_entry)"
    by (simp add: initial_state_def)
  have nt: "new_timestamp ?st = Some (content_timestamp e)" by simp
  show ?thesis
    unfolding get_historic_metric_value_def
    by (simp only: acc option.case sum.case rows nt same)
qed






text \<open>
  The same for a first call that does accumulate: when the newest upstream entry has a
  timestamp other than 0, a second call on the state left by the first, with the same
  upstream, returns the rows of the first call and leaves the state as it is.
\<close>

lemma second_poll_returns_same_rows:
  assumes "get_historic_metric_value api stored path name parameters = Some (Inr (rows, stored'))"
    and "api (metric_url path []) = Inr page" and "entries page = e # es"
    and "content_timestamp e \<noteq> 0"
  shows "get_historic_metric_value api stored' path name parameters = Some (Inr (rows, stored'))"
proof -
  from stored_after_poll [OF assms]
  have "stored' path = Some \<lparr>timestamp = Some (content_timestamp e), result = rows\<rparr>" by simp
  from poll_short_circuit [where stored = stored' and path = path and api = api,
      OF this _ assms(2,3)]
  show ?thesis by simp
qed

section \<open>UnityProtocol.run_queries\<close>

lemma run_tables_example:
  "run_tables failing_target example_inputs [(''Disks'', [''name'']), (''Pools'', [''name''])]
     Map.empty [Login] []
   = (Inl (PyException ''API responded with 500: error''),
      [Login, GetTable ''get_resource'' ''disk'', GetTable ''get_pools'' ''pool''])"
  by (simp add: table_call_def example_inputs_def get_table_def failing_target_def try_run_def)

text \<open>
  C2 (the code does not do what the claim says): the query asks for the tables \<open>Disks\<close>
  and \<open>Pools\<close>; the command of \<open>Disks\<close> returns a row, the command of \<open>Pools\<close> raises.
  \<open>run_queries\<close> raises that exception: no table is returned, neither an \<open>Err\<close> for
  \<open>Pools\<close> nor the \<open>Ok\<close> of \<open>Disks\<close>, and neither \<open>logout\<close> nor \<open>save_state\<close> is
  called.
\<close>

theorem one_failing_table_aborts_query:
  "unity_run_queries failing_target new_world
     [(''Disks'', [''name'']), (''Pools'', [''name''])] example_inputs
   = (Inl (PyException ''API responded with 500: error''),
      \<lparr>state_file = None,
       trace = [Login, GetTable ''get_resource'' ''disk'', GetTable ''get_pools'' ''pool'']\<rparr>)"
proof -
  have "login_check failing_target = None"
    by (simp add: login_check_def failing_target_def sublist_code prefix_code)
  then show ?thesis
    by (simp add: unity_run_queries_def new_world_def run_tables_example del: run_tables.simps)
qed

text \<open>
  C3 (as stated, refuted): when the login returns status 404, \<open>run_queries\<close> does not
  report the requested table \<open>Disks\<close> with an \<open>Err\<close>: it raises one \<open>ProtocolError\<close> for
  the whole query.
\<close>

theorem login_404_no_table_results:
  "fst (unity_run_queries target_404 new_world [(''Disks'', [''name''])] example_inputs)
     = Inl (ProtocolError ''HTTP Status 404 - Not Found'')
   \<and> fst (unity_run_queries target_404 new_world [(''Disks'', [''name''])] example_inputs)
     \<noteq> Inr [(''Disks'', Err ''HTTP Status 404 - Not Found'')]"
  by (simp add: unity_run_queries_def login_check_def target_404_def str_ProtocolError_def
        new_world_def)

text \<open>
  C3 (amended): when the login returns status 404, \<open>run_queries\<close> raises a single
  \<open>ProtocolError\<close> with the message \<open>HTTP Status 404 - Not Found\<close> for the whole query,
  whatever tables are requested; the login is the only call made: no command is run for
  any table, and \<open>logout\<close> and \<open>save_state\<close> are not called, so the state file is as it
  was.
\<close>

theorem login_404_raises_protocol_error:
  assumes "login_result t = Inr response" and "status_code response = 404"
  shows "unity_run_queries t w qry ins
       = (Inl (ProtocolError ''HTTP Status 404 - Not Found''), w\<lparr>trace := trace w @ [Login]\<rparr>)"
  using assms
  by (simp add: unity_run_queries_def login_check_def str_ProtocolError_def)

theorem login_404_raises_protocol_error_witness:
  "login_result target_404 = Inr \<lparr>status_code = 404, response_text = []\<rparr>
   \<and> status_code \<lparr>status_code = 404, response_text = []\<rparr> = 404
   \<and> unity_run_queries target_404 new_world [(''Disks'', [''name''])] example_inputs
       = (Inl (ProtocolError ''HTTP Status 404 - Not Found''), \<lparr>state_file = None, trace = [Login]\<rparr>)"
proof -
  have l: "login_result target_404 = Inr \<lparr>status_code = 404, response_text = []\<rparr>"
    by (simp add: target_404_def)
  have s: "status_code \<lparr>status_code = 404, response_text = []\<rparr> = 404" by simp
  from login_404_raises_protocol_error [OF l s, of new_world "[(''Disks'', [''name''])]" example_inputs]
  have "unity_run_queries target_404 new_world [(''Disks'', [''name''])] example_inputs
       = (Inl (ProtocolError ''HTTP Status 404 - Not Found''), \<lparr>state_file = None, trace = [Login]\<rparr>)"
    by (simp add: new_world_def)
  with l s show ?thesis by (intro conjI)
qed

text \<open>
  Whatever the target, the inputs and the query: a result that \<open>run_queries\<close> returns
  holds \<open>Ok\<close> envelopes only.
\<close>

lemma update_values: "snd ` set (AList.update k v al) \<subseteq> insert v (snd ` set al)"
  by (induction al) auto

lemma run_tables_only_Ok:
  "run_tables t ins qry stored tr res = (Inr (res', stored'), tr') \<Longrightarrow>
   \<forall>v \<in> snd ` set res. \<exists>tbl. v = Ok tbl \<Longrightarrow> \<forall>v \<in> snd ` set res'. \<exists>tbl. v = Ok tbl"
proof (induction qry arbitrary: stored tr res)
  case Nil
  then show ?case by simp
next
  case (Cons q qry)
  obtain table_name field_names where q: "q = (table_name, field_names)" by (cases q) auto
  obtain outcome tr1 where c: "table_call t ins table_name field_names stored tr = (outcome, tr1)"
    by (cases "table_call t ins table_name field_names stored tr") auto
  from Cons.prems(1) q c obtain tbl stored1 where
    o: "outcome = Inr (tbl, stored1)"
    and rest: "run_tables t ins qry stored1 tr1 (AList.update table_name (Ok tbl) res)
                 = (Inr (res', stored'), tr')"
    by (auto simp: try_run_def split: sum.splits prod.splits)
  have "\<forall>v \<in> snd ` set (AList.update table_name (Ok tbl) res). \<exists>tbl. v = Ok tbl"
    using Cons.prems(2) update_values [of table_name "Ok tbl" res] by blast
  from Cons.IH [OF rest this] show ?case .
qed

lemma run_queries_only_Ok:
  assumes "unity_run_queries t w qry ins = (Inr res, w')"
  shows "\<forall>v \<in> snd ` set res. \<exists>tbl. v = Ok tbl"
proof -
  from assms obtain stored tr stored' tr' where
    "run_tables t ins qry stored tr [] = (Inr (res, stored'), tr')"
    by (auto simp: unity_run_queries_def Let_def split: option.splits sum.splits prod.splits)
  from run_tables_only_Ok [OF this] show ?thesis by simp
qed

end
